theory Spec2Isabelle
  imports Complex_Main
begin

section \<open>Distributed fine-tuning script \<^verbatim>\<open>classifier/train_on_azure.py\<close>\<close>

text \<open>
  The script is a per-process (SPMD) program over PyTorch, Horovod and the Azure ML run
  logger. The embedding follows the script top to bottom: argument parsing and
  configuration (lines 22-109), \<^verbatim>\<open>train\<close>, \<^verbatim>\<open>metric_average\<close>, \<^verbatim>\<open>test\<close> and the two
  module-level epoch loops (lines 111-177).

  Python integers are \<^typ>\<open>int\<close>, lengths and counts \<^typ>\<open>nat\<close>. The losses and metrics
  are floating-point values with their infinities and NaN (\<open>fval\<close> below); the
  hyperparameters \<^verbatim>\<open>lr\<close> and \<^verbatim>\<open>momentum\<close> are \<^typ>\<open>real\<close>. An uncaught Python
  exception is the \<open>Inl\<close> branch of a sum type. What the external libraries compute (the
  network, the optimizer step, the all-reduce, the data shards, the wall clock) is a
  parameter of the model; what they are documented to do with the values the script
  hands them (weighted cross-entropy, the index of the maximum, batching, path joining) is
  written out. Failures of the surroundings (a missing directory, a full disk, a worker
  that dies in a collective) are not represented.
\<close>

subsection \<open>Python helpers\<close>

text \<open>
  The exceptions of the script, by their Python class. \<open>SeedOverflow\<close> is the overflow
  error of \<^verbatim>\<open>torch.manual_seed\<close> (a \<^verbatim>\<open>RuntimeError\<close> or a \<^verbatim>\<open>ValueError\<close>, by the version
  of PyTorch) and \<open>CudaUnavailable\<close> the error of a CUDA call on a machine without CUDA
  (an \<^verbatim>\<open>AssertionError\<close> or a \<^verbatim>\<open>RuntimeError\<close>, by the version).
\<close>

datatype py_error =
  TypeError | ValueError | ZeroDivisionError | IndexError | RuntimeError | SeedOverflow |
  CudaUnavailable

text \<open>\<^verbatim>\<open>range(a, b)\<close> on integers.\<close>

definition py_range :: "int \<Rightarrow> int \<Rightarrow> int list" where
  "py_range a b = [a..b - 1]"

text \<open>\<^verbatim>\<open>os.path.join(a, b)\<close> (posixpath, two components).\<close>

definition os_path_join :: "string \<Rightarrow> string \<Rightarrow> string" where
  "os_path_join a b =
     (if b \<noteq> [] \<and> hd b = CHR ''/'' then b
      else if a = [] \<or> last a = CHR ''/'' then a @ b
      else a @ ''/'' @ b)"

text \<open>\<^verbatim>\<open>str(n)\<close> of a non-negative integer, and zero-padded decimal fields.\<close>

definition digit :: "nat \<Rightarrow> char" where
  "digit d = ''0123456789'' ! d"

function str_nat :: "nat \<Rightarrow> string" where
  "str_nat n = (if n < 10 then [digit n] else str_nat (n div 10) @ [digit (n mod 10)])"
  by pat_completeness auto
termination
  by (relation "measure id") auto

declare str_nat.simps [simp del]

definition zero_pad :: "nat \<Rightarrow> string \<Rightarrow> string" where
  "zero_pad w s = replicate (w - length s) CHR ''0'' @ s"

subsection \<open>Command line (lines 22-44)\<close>

text \<open>
  What the process was started with, per flag: \<open>None\<close> when the flag is absent, the
  converted value otherwise; a \<^verbatim>\<open>store_true\<close> flag is present or not.
\<close>

record cmdline =
  arg_data_folder :: "string option"
  arg_output_dir :: "string option"
  arg_batch_size :: "int option"
  arg_test_batch_size :: "int option"
  arg_epochs :: "int option"
  arg_lr :: "real option"
  arg_momentum :: "real option"
  arg_no_cuda :: bool
  arg_seed :: "int option"
  arg_log_interval :: "int option"
  arg_fp16_allreduce :: bool

text \<open>
  The namespace \<^verbatim>\<open>args\<close>. \<^verbatim>\<open>--data-folder\<close> is declared without \<^verbatim>\<open>default=\<close>, so its
  attribute is Python's \<^verbatim>\<open>None\<close> when the flag is absent: the field is an option.
\<close>

record args =
  data_folder :: "string option"
  output_dir :: string
  batch_size :: int
  test_batch_size :: int
  epochs :: int
  lr :: real
  momentum :: real
  no_cuda :: bool
  seed :: int
  log_interval :: int
  fp16_allreduce :: bool

definition with_default :: "'a \<Rightarrow> 'a option \<Rightarrow> 'a" where
  "with_default d v = (case v of None \<Rightarrow> d | Some x \<Rightarrow> x)"

definition parse_args :: "cmdline \<Rightarrow> args" where
  "parse_args c =
     \<lparr> data_folder = arg_data_folder c,
       output_dir = with_default ''./outputs'' (arg_output_dir c),
       batch_size = with_default 64 (arg_batch_size c),
       test_batch_size = with_default 1000 (arg_test_batch_size c),
       epochs = with_default 10 (arg_epochs c),
       lr = with_default (1 / 100) (arg_lr c),
       momentum = with_default (1 / 2) (arg_momentum c),
       no_cuda = arg_no_cuda c,
       seed = with_default 42 (arg_seed c),
       log_interval = with_default 10 (arg_log_interval c),
       fp16_allreduce = arg_fp16_allreduce c \<rparr>"

definition no_arguments :: cmdline where
  "no_arguments =
     \<lparr> arg_data_folder = None, arg_output_dir = None, arg_batch_size = None,
       arg_test_batch_size = None, arg_epochs = None, arg_lr = None, arg_momentum = None,
       arg_no_cuda = False, arg_seed = None, arg_log_interval = None,
       arg_fp16_allreduce = False \<rparr>"

subsection \<open>Floating-point values\<close>

text \<open>
  A Python float or an entry of a tensor: a finite value, an infinity or NaN. The
  operations follow IEEE 754 on the infinities and NaN; on finite values they are exact
  (the rounding of a sum or product, and its overflow, are not represented).
\<close>

datatype fval = Fin real | PInf | NInf | NaN

fun fneg :: "fval \<Rightarrow> fval" where
  "fneg (Fin a) = Fin (- a)"
| "fneg PInf = NInf"
| "fneg NInf = PInf"
| "fneg NaN = NaN"

fun fadd :: "fval \<Rightarrow> fval \<Rightarrow> fval" where
  "fadd (Fin a) (Fin b) = Fin (a + b)"
| "fadd NaN v = NaN"
| "fadd v NaN = NaN"
| "fadd PInf NInf = NaN"
| "fadd NInf PInf = NaN"
| "fadd PInf v = PInf"
| "fadd v PInf = PInf"
| "fadd NInf v = NInf"
| "fadd v NInf = NInf"

fun fmul :: "fval \<Rightarrow> fval \<Rightarrow> fval" where
  "fmul (Fin a) (Fin b) = Fin (a * b)"
| "fmul NaN v = NaN"
| "fmul v NaN = NaN"
| "fmul PInf (Fin b) = (if b = 0 then NaN else if 0 < b then PInf else NInf)"
| "fmul NInf (Fin b) = (if b = 0 then NaN else if 0 < b then NInf else PInf)"
| "fmul (Fin a) PInf = (if a = 0 then NaN else if 0 < a then PInf else NInf)"
| "fmul (Fin a) NInf = (if a = 0 then NaN else if 0 < a then NInf else PInf)"
| "fmul PInf PInf = PInf"
| "fmul PInf NInf = NInf"
| "fmul NInf PInf = NInf"
| "fmul NInf NInf = PInf"

fun fdiv :: "fval \<Rightarrow> fval \<Rightarrow> fval" where
  "fdiv (Fin a) (Fin b) =
     (if b \<noteq> 0 then Fin (a / b) else if a = 0 then NaN else if 0 < a then PInf else NInf)"
| "fdiv NaN v = NaN"
| "fdiv v NaN = NaN"
| "fdiv (Fin a) PInf = Fin 0"
| "fdiv (Fin a) NInf = Fin 0"
| "fdiv PInf (Fin b) = (if 0 \<le> b then PInf else NInf)"
| "fdiv NInf (Fin b) = (if 0 \<le> b then NInf else PInf)"
| "fdiv PInf v = NaN"
| "fdiv NInf v = NaN"

definition fsum :: "fval list \<Rightarrow> fval" where
  "fsum vs = foldl fadd (Fin 0) vs"

text \<open>
  \<^verbatim>\<open>torch.tensor(val)\<close> and \<^verbatim>\<open>torch.Tensor(list)\<close> make tensors of 32-bit floats: every value
  is rounded to the nearest one with a 24-bit significand (ties to even), in units of
  \<open>2 ^ (e - 23)\<close> for the binade \<open>2 ^ e \<le> |x| < 2 ^ (e + 1)\<close>, \<open>-126 \<le> e \<le> 127\<close>, and
  what exceeds the largest of them becomes an infinity. \<open>binade\<close> finds \<open>e + 149\<close>
  for the magnitude in units of \<open>2 ^ -149\<close>, the smallest positive value.
\<close>

definition round_half_even :: "real \<Rightarrow> int" where
  "round_half_even y =
     (let f = \<lfloor>y\<rfloor>; d = y - of_int f
      in if d < 1 / 2 then f else if 1 / 2 < d then f + 1 else if even f then f else f + 1)"

function binade :: "real \<Rightarrow> nat \<Rightarrow> nat" where
  "binade y k = (if k < 276 \<and> 2 ^ (k + 1) \<le> y then binade y (k + 1) else k)"
  by pat_completeness auto
termination
  by (relation "measure (\<lambda>(y, k). 276 - k)") auto

declare binade.simps [simp del]

definition float32_round :: "real \<Rightarrow> real" where
  "float32_round x =
     (let y = \<bar>x\<bar> * 2 ^ 149;
          u = 2 ^ (binade y 23 - 23);
          m = round_half_even (y / u)
      in sgn x * (of_int m * u) / 2 ^ 149)"

definition float32_max :: real where
  "float32_max = (2 ^ 24 - 1) * 2 ^ 104"

definition to_float32 :: "fval \<Rightarrow> fval" where
  "to_float32 v =
     (case v of
        Fin x \<Rightarrow>
          (let r = float32_round x
           in if float32_max < \<bar>r\<bar> then (if 0 < x then PInf else NInf) else Fin r)
      | _ \<Rightarrow> v)"

subsection \<open>Configuration (lines 47-109)\<close>

datatype device = CPU | CUDA

datatype compression = Compression_none | Compression_fp16

record optimizer =
  sgd_lr :: real
  sgd_momentum :: real
  hvd_compression :: compression

text \<open>
  What the module has bound when line 109 is passed. \<open>hvd_size\<close> is \<^verbatim>\<open>hvd.size()\<close>,
  \<open>cuda_available\<close> is \<^verbatim>\<open>torch.cuda.is_available()\<close>.
\<close>

record config =
  cfg_args :: args
  cuda :: bool
  loader_workers :: "nat option"
  dataset_dir :: string
  weights_path :: string
  model_device :: device
  cfg_optimizer :: optimizer
  class_weights_device :: device

text \<open>
  Line 50: \<^verbatim>\<open>torch.manual_seed(args.seed)\<close> takes a seed of 64 bits, signed or unsigned,
  and raises an overflow error for any other.
\<close>

definition seed_in_range :: "int \<Rightarrow> bool" where
  "seed_in_range s \<longleftrightarrow> - (2 ^ 63) \<le> s \<and> s < 2 ^ 64"

definition manual_seed :: "int \<Rightarrow> py_error + unit" where
  "manual_seed s = (if seed_in_range s then Inr () else Inl SeedOverflow)"

text \<open>Line 47.\<close>

definition use_cuda :: "args \<Rightarrow> bool \<Rightarrow> bool" where
  "use_cuda a cuda_available = (\<not> no_cuda a \<and> cuda_available)"

text \<open>
  Lines 60 and 75: \<^verbatim>\<open>os.path.join(args.data_folder, ...)\<close>; \<^verbatim>\<open>os.path.join(None, ...)\<close>
  raises \<^verbatim>\<open>TypeError\<close>.
\<close>

definition join_data_folder :: "args \<Rightarrow> string \<Rightarrow> py_error + string" where
  "join_data_folder a name =
     (case data_folder a of None \<Rightarrow> Inl TypeError | Some d \<Rightarrow> Inr (os_path_join d name))"

text \<open>
  Lines 66 and 72: \<^verbatim>\<open>DataLoader(..., batch_size=n, sampler=...)\<close> raises \<^verbatim>\<open>ValueError\<close>
  unless \<open>n\<close> is positive.
\<close>

definition check_batch_size :: "int \<Rightarrow> py_error + nat" where
  "check_batch_size n = (if n \<le> 0 then Inl ValueError else Inr (nat n))"

text \<open>Lines 95-104: the SGD optimizer, wrapped by \<^verbatim>\<open>hvd.DistributedOptimizer\<close>.\<close>

definition make_optimizer :: "args \<Rightarrow> nat \<Rightarrow> optimizer" where
  "make_optimizer a hvd_size =
     \<lparr> sgd_lr = lr a * real hvd_size,
       sgd_momentum = momentum a,
       hvd_compression = (if fp16_allreduce a then Compression_fp16 else Compression_none) \<rparr>"

text \<open>
  \<^verbatim>\<open>optim.SGD(params, lr=..., momentum=...)\<close> raises \<^verbatim>\<open>ValueError\<close> for a negative
  learning rate or momentum.
\<close>

definition optim_SGD :: "optimizer \<Rightarrow> py_error + optimizer" where
  "optim_SGD opt = (if sgd_lr opt < 0 \<or> sgd_momentum opt < 0 then Inl ValueError else Inr opt)"

text \<open>
  \<^verbatim>\<open>tensor.cuda()\<close>: the tensor on the CUDA device, or an error when there is none.
\<close>

definition to_cuda :: "bool \<Rightarrow> py_error + device" where
  "to_cuda cuda_available = (if cuda_available then Inr CUDA else Inl CudaUnavailable)"

text \<open>
  Lines 44-109 in order, with the calls that can fail on the arguments: the seed (line
  50), the data folder (lines 60 and 75), the batch sizes (lines 66 and 72), the
  optimizer (line 95) and the class weights (line 107). The guarded CUDA calls (lines
  52-55, 87-89) run only under \<^verbatim>\<open>args.cuda\<close>; line 107 is not guarded.
\<close>

definition configure :: "cmdline \<Rightarrow> bool \<Rightarrow> nat \<Rightarrow> py_error + config" where
  "configure c cuda_available hvd_size =
     (let a = parse_args c;
          cu = use_cuda a cuda_available;
          kw = (if cu then Some 2 else None)
      in case manual_seed (seed a) of
           Inl e \<Rightarrow> Inl e
         | Inr _ \<Rightarrow>
       (case join_data_folder a ''data_wf'' of
           Inl e \<Rightarrow> Inl e
         | Inr dir \<Rightarrow>
       (case check_batch_size (batch_size a) of
           Inl e \<Rightarrow> Inl e
         | Inr _ \<Rightarrow>
       (case check_batch_size (test_batch_size a) of
           Inl e \<Rightarrow> Inl e
         | Inr _ \<Rightarrow>
       (case join_data_folder a (os_path_join ''weights'' ''xception_imagenet.pth'') of
           Inl e \<Rightarrow> Inl e
         | Inr path \<Rightarrow>
       (let dev = (if cu then CUDA else CPU)
        in case optim_SGD (make_optimizer a hvd_size) of
             Inl e \<Rightarrow> Inl e
           | Inr opt \<Rightarrow>
       (case to_cuda cuda_available of
             Inl e \<Rightarrow> Inl e
           | Inr cw_dev \<Rightarrow>
               Inr \<lparr> cfg_args = a, cuda = cu, loader_workers = kw, dataset_dir = dir,
                     weights_path = path, model_device = dev, cfg_optimizer = opt,
                     class_weights_device = cw_dev \<rparr>)))))))"

subsection \<open>Checkpoint names (lines 77-83)\<close>

text \<open>The fields of \<^verbatim>\<open>datetime.datetime.now()\<close> the script reads.\<close>

record datetime =
  year :: nat
  month :: nat
  day :: nat
  hour :: nat
  minute :: nat

text \<open>\<^verbatim>\<open>str(now.date())\<close>: ISO format, \<^verbatim>\<open>YYYY-MM-DD\<close>.\<close>

definition date_str :: "datetime \<Rightarrow> string" where
  "date_str now =
     zero_pad 4 (str_nat (year now)) @ ''-'' @ zero_pad 2 (str_nat (month now)) @ ''-'' @
     zero_pad 2 (str_nat (day now))"

text \<open>The script's \<^verbatim>\<open>time()\<close>, applied to the clock reading.\<close>

definition time_name :: "datetime \<Rightarrow> string" where
  "time_name now = date_str now @ ''_'' @ str_nat (hour now) @ ''-'' @ str_nat (minute now)"

definition N_FINETUNE_EPOCHS :: int where
  "N_FINETUNE_EPOCHS = 2"

definition CKPT :: string where
  "CKPT = ''xception_train''"

text \<open>\<^verbatim>\<open>os.path.join(args.output_dir, f'{CKPT}_{time()}.pth')\<close>.\<close>

definition checkpoint_path :: "args \<Rightarrow> datetime \<Rightarrow> string" where
  "checkpoint_path a now = os_path_join (output_dir a) (CKPT @ ''_'' @ time_name now @ ''.pth'')"

subsection \<open>Loss and prediction\<close>

text \<open>
  \<^verbatim>\<open>log_softmax\<close> of one row of logits, as PyTorch computes it (the maximum is taken out
  first): a NaN or \<open>+inf\<close> among the logits, or nothing but \<open>-inf\<close>, makes every entry
  NaN; otherwise an entry is the logit minus the logarithm of the sum of the
  exponentials, and \<open>-inf\<close> stays \<open>-inf\<close>.
\<close>

definition log_softmax :: "fval list \<Rightarrow> fval list" where
  "log_softmax x =
     (if list_ex (\<lambda>v. v = NaN \<or> v = PInf) x \<or> list_all (\<lambda>v. v = NInf) x
      then map (\<lambda>v. NaN) x
      else (let lse = ln (sum_list (map (\<lambda>v. case v of Fin a \<Rightarrow> exp a | _ \<Rightarrow> 0) x))
            in map (\<lambda>v. case v of Fin a \<Rightarrow> Fin (a - lse) | _ \<Rightarrow> v) x))"

text \<open>
  \<^verbatim>\<open>nn.CrossEntropyLoss(weight=class_weights, size_average=False)\<close>: over the rows \<open>x\<close> of
  the output and their targets \<open>t\<close>, the sum of \<open>weight[t] * (-log_softmax(x)[t])\<close>. A
  row whose width is not the number of classes is a \<^verbatim>\<open>RuntimeError\<close>, a target outside
  the classes an \<^verbatim>\<open>IndexError\<close>.
\<close>

definition val_criterion :: "fval list \<Rightarrow> fval list list \<Rightarrow> nat list \<Rightarrow> py_error + fval" where
  "val_criterion cw output target =
     (if list_ex (\<lambda>x. length x \<noteq> length cw) output then Inl RuntimeError
      else if list_ex (\<lambda>t. length cw \<le> t) target then Inl IndexError
      else Inr (fsum (map (\<lambda>(x, t). fmul (cw ! t) (fneg (log_softmax x ! t)))
                   (zip output target))))"

text \<open>
  \<^verbatim>\<open>nn.CrossEntropyLoss(weight=class_weights)\<close>, the training loss: the same sum, divided
  by the sum of the weights of the targets (NaN where both are zero).
\<close>

definition criterion :: "fval list \<Rightarrow> fval list list \<Rightarrow> nat list \<Rightarrow> py_error + fval" where
  "criterion cw output target =
     (case val_criterion cw output target of
        Inl e \<Rightarrow> Inl e
      | Inr s \<Rightarrow> Inr (fdiv s (fsum (map (\<lambda>t. cw ! t) target))))"

text \<open>
  \<^verbatim>\<open>output.data.max(1, keepdim=True)[1]\<close>, one row: the index of the first NaN if there
  is one, of the largest entry otherwise (the first one among equals). \<open>fless\<close> is
  \<open><\<close> on floating-point values, false on NaN.
\<close>

fun fless :: "fval \<Rightarrow> fval \<Rightarrow> bool" where
  "fless (Fin a) (Fin b) = (a < b)"
| "fless NaN v = False"
| "fless v NaN = False"
| "fless NInf NInf = False"
| "fless NInf v = True"
| "fless v NInf = False"
| "fless PInf v = False"
| "fless v PInf = True"

fun argmax_from :: "fval list \<Rightarrow> nat \<Rightarrow> nat \<Rightarrow> fval \<Rightarrow> nat" where
  "argmax_from [] i best v = best"
| "argmax_from (x # xs) i best v =
     (if v = NaN then best
      else if x = NaN \<or> fless v x then argmax_from xs (Suc i) i x
      else argmax_from xs (Suc i) best v)"

definition argmax :: "fval list \<Rightarrow> nat" where
  "argmax x = (case x of [] \<Rightarrow> 0 | v # xs \<Rightarrow> argmax_from xs 1 0 v)"

text \<open>\<^verbatim>\<open>pred.eq(target.data.view_as(pred)).cpu().float().sum()\<close>.\<close>

definition count_correct :: "fval list list \<Rightarrow> nat list \<Rightarrow> nat" where
  "count_correct output target = length (filter (\<lambda>(x, t). argmax x = t) (zip output target))"

subsection \<open>Data loading\<close>

text \<open>
  Iterating a \<^verbatim>\<open>DataLoader\<close> (with the default \<^verbatim>\<open>drop_last=False\<close>): the sampler's samples
  in order, \<open>n\<close> at a time, the last batch shorter. The constructor has refused
  \<open>n \<le> 0\<close> (see \<open>check_batch_size\<close>).
\<close>

function chunks :: "nat \<Rightarrow> 'a list \<Rightarrow> 'a list list" where
  "chunks n xs = (if n = 0 \<or> xs = [] then [] else take n xs # chunks n (drop n xs))"
  by pat_completeness auto
termination
  by (relation "measure (\<lambda>(n, xs). length xs)") auto

declare chunks.simps [simp del]

subsection \<open>One worker process\<close>

type_synonym 'x batch = "('x \<times> nat) list"

datatype print_line =
  TrainProgress int nat nat real fval
| TestSummary fval fval

text \<open>
  What the script is run with, the same on every worker: the configuration, the tensor
  \<^verbatim>\<open>class_weights\<close> of line 107, the network (\<open>net p mode data i\<close> is row \<open>i\<close> of
  \<^verbatim>\<open>model(data)\<close> under parameters \<open>p\<close>, in training mode or not) and Horovod's
  averaging all-reduce: \<open>allreduce ts name\<close> is what every worker gets back from
  \<^verbatim>\<open>hvd.allreduce(tensor, name=name)\<close> when \<open>ts\<close> are the tensors the workers pass, in rank
  order (\<^verbatim>\<open>hvd.size()\<close> is their number). Moving a batch to the GPU under \<^verbatim>\<open>args.cuda\<close>
  changes no value and is left out.
\<close>

record ('p, 'x) job =
  job_cfg :: config
  classw :: "fval list"
  net :: "'p \<Rightarrow> bool \<Rightarrow> 'x list \<Rightarrow> nat \<Rightarrow> fval list"
  allreduce :: "fval list \<Rightarrow> string \<Rightarrow> fval"

text \<open>
  One process. The first six fields are its surroundings, fixed for the run: the
  samples its \<^verbatim>\<open>DistributedSampler\<close>s yield (the training one depends on the epoch set
  by \<^verbatim>\<open>set_epoch\<close>), its wall clock (\<open>clock w k\<close> is the \<open>k\<close>-th reading of
  \<^verbatim>\<open>datetime.now()\<close>), the names of \<^verbatim>\<open>model.parameters()\<close> and of
  \<^verbatim>\<open>model.features.parameters()\<close>, and what
  \<^verbatim>\<open>optimizer.step()\<close> after \<^verbatim>\<open>loss.backward()\<close> makes of the parameters and the
  optimizer's buffers (the gradient all-reduce with the other workers is inside).
  The other fields are the state the script changes.
\<close>

record ('p, 'o, 'x) worker =
  train_shard :: "int \<Rightarrow> 'x batch"
  test_shard :: "'x batch"
  clock :: "nat \<Rightarrow> datetime"
  model_params :: "string list"
  feature_params :: "string list"
  opt_step :: "optimizer \<Rightarrow> (string \<Rightarrow> bool) \<Rightarrow> int \<Rightarrow> nat \<Rightarrow> 'p \<times> 'o \<Rightarrow> 'x batch \<Rightarrow> 'p \<times> 'o"
  weights :: 'p
  opt_state :: 'o
  training :: bool
  requires_grad :: "string \<Rightarrow> bool"
  sampler_epoch :: int
  run_log :: "(string \<times> fval) list"
  stdout :: "print_line list"
  files :: "string \<rightharpoonup> 'p"
  clock_reads :: nat

text \<open>\<^verbatim>\<open>model(data)\<close>.\<close>

definition model_call :: "('p, 'x) job \<Rightarrow> ('p, 'o, 'x) worker \<Rightarrow> 'x list \<Rightarrow> fval list list" where
  "model_call j w data = map (net j (weights w) (training w) data) [0..<length data]"

subsection \<open>\<^verbatim>\<open>train\<close> (lines 111-129)\<close>

fun train_loop ::
  "('p, 'x) job \<Rightarrow> int \<Rightarrow> nat \<Rightarrow> nat \<Rightarrow> (nat \<times> 'x batch) list \<Rightarrow> ('p, 'o, 'x) worker
     \<Rightarrow> py_error + ('p, 'o, 'x) worker" where
  "train_loop j epoch len_sampler len_loader [] w = Inr w"
| "train_loop j epoch len_sampler len_loader ((batch_idx, b) # rest) w =
     (let data = map fst b;
          target = map snd b;
          output = model_call j w data
      in case criterion (classw j) output target of
           Inl e \<Rightarrow> Inl e
         | Inr loss \<Rightarrow>
       (let (p, os) = opt_step w (cfg_optimizer (job_cfg j)) (requires_grad w) epoch batch_idx
                        (weights w, opt_state w) b;
            w1 = w\<lparr>weights := p, opt_state := os\<rparr>
        in if log_interval (cfg_args (job_cfg j)) = 0 then Inl ZeroDivisionError
           else if int batch_idx mod log_interval (cfg_args (job_cfg j)) = 0
           then train_loop j epoch len_sampler len_loader rest
                  (w1\<lparr>stdout := stdout w1 @
                          [TrainProgress epoch (batch_idx * length data) len_sampler
                             (100 * real batch_idx / real len_loader) loss],
                       run_log := run_log w1 @ [(''loss'', loss)]\<rparr>)
           else train_loop j epoch len_sampler len_loader rest w1))"

definition train :: "('p, 'x) job \<Rightarrow> int \<Rightarrow> ('p, 'o, 'x) worker \<Rightarrow> py_error + ('p, 'o, 'x) worker" where
  "train j epoch w =
     (let w1 = w\<lparr>training := True, sampler_epoch := epoch\<rparr>;
          samples = train_shard w1 (sampler_epoch w1);
          train_loader = chunks (nat (batch_size (cfg_args (job_cfg j)))) samples
      in train_loop j epoch (length samples) (length train_loader)
           (enumerate 0 train_loader) w1)"

subsection \<open>\<^verbatim>\<open>metric_average\<close> (lines 132-135)\<close>

text \<open>
  A collective is called by every worker in the same step: \<open>vals\<close> are the values the
  workers call \<^verbatim>\<open>metric_average\<close> with, in rank order, and the result is what every one
  of them gets back. \<^verbatim>\<open>torch.tensor(val)\<close> makes a 32-bit tensor of each value;
  \<^verbatim>\<open>avg_tensor.item()\<close> is the entry of the result as it is.
\<close>

definition metric_average :: "('p, 'x) job \<Rightarrow> fval list \<Rightarrow> string \<Rightarrow> fval" where
  "metric_average j vals name = allreduce j (map to_float32 vals) name"

subsection \<open>\<^verbatim>\<open>test\<close> (lines 138-163)\<close>

text \<open>The loop of lines 142-150, with its two accumulators.\<close>

fun test_loop ::
  "('p, 'x) job \<Rightarrow> ('p, 'o, 'x) worker \<Rightarrow> 'x batch list \<Rightarrow> fval \<times> real \<Rightarrow> py_error + fval \<times> real" where
  "test_loop j w [] (test_loss, test_accuracy) = Inr (test_loss, test_accuracy)"
| "test_loop j w (b # rest) (test_loss, test_accuracy) =
     (let data = map fst b;
          target = map snd b;
          output = model_call j w data
      in case val_criterion (classw j) output target of
           Inl e \<Rightarrow> Inl e
         | Inr v \<Rightarrow>
             test_loop j w rest
               (fadd test_loss v, test_accuracy + real (count_correct output target)))"

text \<open>
  Lines 139-153 on one worker: the local pass and the two divisions by
  \<^verbatim>\<open>len(test_sampler)\<close>, the number of samples the sampler yields (the loader batches
  exactly these). \<^verbatim>\<open>test_loss\<close> is a Python float there, so a shard of size zero raises
  \<^verbatim>\<open>ZeroDivisionError\<close>. \<^verbatim>\<open>test_accuracy\<close> is a count of samples until it is divided (in
  the code a 32-bit tensor, which holds every count below \<open>2 ^ 24\<close> exactly).
\<close>

definition test_local :: "('p, 'x) job \<Rightarrow> ('p, 'o, 'x) worker \<Rightarrow> py_error + fval \<times> fval" where
  "test_local j w =
     (let w1 = w\<lparr>training := False\<rparr>;
          test_loader = chunks (nat (test_batch_size (cfg_args (job_cfg j)))) (test_shard w1);
          len_test_sampler = length (test_shard w1)
      in case test_loop j w1 test_loader (Fin 0, 0) of
           Inl e \<Rightarrow> Inl e
         | Inr (test_loss, test_accuracy) \<Rightarrow>
             if len_test_sampler = 0 then Inl ZeroDivisionError
             else Inr (fdiv test_loss (Fin (real len_test_sampler)),
                       Fin (test_accuracy / real len_test_sampler)))"

text \<open>Lines 158-163 on the worker of the given rank, with the two averaged values.\<close>

definition test_report ::
  "nat \<Rightarrow> fval \<Rightarrow> fval \<Rightarrow> ('p, 'o, 'x) worker \<Rightarrow> ('p, 'o, 'x) worker" where
  "test_report rank test_loss test_accuracy w =
     (let w1 = w\<lparr>run_log := run_log w @ [(''val_loss'', test_loss), (''val_acc'', test_accuracy)]\<rparr>
      in if rank = 0
         then w1\<lparr>stdout := stdout w1 @ [TestSummary test_loss (fmul (Fin 100) test_accuracy)]\<rparr>
         else w1)"

fun map_result :: "('a \<Rightarrow> 'e + 'b) \<Rightarrow> 'a list \<Rightarrow> 'e + 'b list" where
  "map_result f [] = Inr []"
| "map_result f (x # xs) =
     (case f x of
        Inl e \<Rightarrow> Inl e
      | Inr y \<Rightarrow> (case map_result f xs of Inl e \<Rightarrow> Inl e | Inr ys \<Rightarrow> Inr (y # ys)))"

text \<open>
  Lines 139-156 on all workers in step (the worker of rank \<open>i\<close> is the \<open>i\<close>-th of the
  list): the local passes, then the two collectives. The pair is what every worker
  holds in \<^verbatim>\<open>test_loss\<close> and \<^verbatim>\<open>test_accuracy\<close> at line 157.
\<close>

definition test_metrics ::
  "('p, 'x) job \<Rightarrow> ('p, 'o, 'x) worker list \<Rightarrow> py_error + fval \<times> fval" where
  "test_metrics j ws =
     (case map_result (test_local j) ws of
        Inl e \<Rightarrow> Inl e
      | Inr ms \<Rightarrow>
          Inr (metric_average j (map fst ms) ''avg_loss'',
               metric_average j (map snd ms) ''avg_accuracy''))"

definition test :: "('p, 'x) job \<Rightarrow> ('p, 'o, 'x) worker list \<Rightarrow> py_error + ('p, 'o, 'x) worker list" where
  "test j ws =
     (case test_metrics j ws of
        Inl e \<Rightarrow> Inl e
      | Inr (test_loss, test_accuracy) \<Rightarrow>
          Inr (map (\<lambda>(rank, w). test_report rank test_loss test_accuracy (w\<lparr>training := False\<rparr>))
                 (enumerate 0 ws)))"

subsection \<open>The epoch loops (lines 166-177)\<close>

text \<open>\<^verbatim>\<open>torch.save(model.state_dict(), os.path.join(args.output_dir, f'{CKPT}_{time()}.pth'))\<close>.\<close>

definition checkpoint :: "('p, 'x) job \<Rightarrow> ('p, 'o, 'x) worker \<Rightarrow> ('p, 'o, 'x) worker" where
  "checkpoint j w =
     w\<lparr>files := (files w)(checkpoint_path (cfg_args (job_cfg j)) (clock w (clock_reads w)) \<mapsto> weights w),
       clock_reads := Suc (clock_reads w)\<rparr>"

text \<open>Lines 171-172.\<close>

definition unfreeze :: "('p, 'o, 'x) worker \<Rightarrow> ('p, 'o, 'x) worker" where
  "unfreeze w = w\<lparr>requires_grad := fold (\<lambda>param rg. rg(param := True)) (feature_params w) (requires_grad w)\<rparr>"

text \<open>The body of both loops, on all workers in step.\<close>

definition epoch_body ::
  "('p, 'x) job \<Rightarrow> int \<Rightarrow> ('p, 'o, 'x) worker list \<Rightarrow> py_error + ('p, 'o, 'x) worker list" where
  "epoch_body j epoch ws =
     (case map_result (train j epoch) ws of
        Inl e \<Rightarrow> Inl e
      | Inr ws1 \<Rightarrow>
          (case test j ws1 of
             Inl e \<Rightarrow> Inl e
           | Inr ws2 \<Rightarrow> Inr (map (checkpoint j) ws2)))"

fun epoch_loop ::
  "('p, 'x) job \<Rightarrow> int list \<Rightarrow> ('p, 'o, 'x) worker list \<Rightarrow> py_error + ('p, 'o, 'x) worker list" where
  "epoch_loop j [] ws = Inr ws"
| "epoch_loop j (epoch # rest) ws =
     (case epoch_body j epoch ws of Inl e \<Rightarrow> Inl e | Inr ws1 \<Rightarrow> epoch_loop j rest ws1)"

definition main :: "('p, 'x) job \<Rightarrow> ('p, 'o, 'x) worker list \<Rightarrow> py_error + ('p, 'o, 'x) worker list" where
  "main j ws =
     (case epoch_loop j (py_range 1 N_FINETUNE_EPOCHS) ws of
        Inl e \<Rightarrow> Inl e
      | Inr ws1 \<Rightarrow>
          epoch_loop j (py_range N_FINETUNE_EPOCHS (epochs (cfg_args (job_cfg j)) + 1))
            (map unfreeze ws1))"

subsection \<open>The script as the sequence of its calls\<close>

text \<open>
  Neither loop has a \<^verbatim>\<open>break\<close> or a condition: the calls the script makes are fixed by
  \<^verbatim>\<open>args.epochs\<close>. \<open>script\<close> lists them, \<open>exec\<close> runs a list of them (stopping at the
  first exception) and \<open>states\<close> gives the states passed through: the first one, then
  the one after every call that returned.
\<close>

datatype stmt = Train int | Test | Checkpoint | Unfreeze

definition loop_stmts :: "int list \<Rightarrow> stmt list" where
  "loop_stmts es = concat (map (\<lambda>epoch. [Train epoch, Test, Checkpoint]) es)"

definition script :: "int \<Rightarrow> stmt list" where
  "script n_epochs =
     loop_stmts (py_range 1 N_FINETUNE_EPOCHS) @ [Unfreeze] @
     loop_stmts (py_range N_FINETUNE_EPOCHS (n_epochs + 1))"

fun exec_stmt ::
  "('p, 'x) job \<Rightarrow> stmt \<Rightarrow> ('p, 'o, 'x) worker list \<Rightarrow> py_error + ('p, 'o, 'x) worker list" where
  "exec_stmt j (Train epoch) ws = map_result (train j epoch) ws"
| "exec_stmt j Test ws = test j ws"
| "exec_stmt j Checkpoint ws = Inr (map (checkpoint j) ws)"
| "exec_stmt j Unfreeze ws = Inr (map unfreeze ws)"

fun exec ::
  "('p, 'x) job \<Rightarrow> stmt list \<Rightarrow> ('p, 'o, 'x) worker list \<Rightarrow> py_error + ('p, 'o, 'x) worker list" where
  "exec j [] ws = Inr ws"
| "exec j (s # ss) ws = (case exec_stmt j s ws of Inl e \<Rightarrow> Inl e | Inr ws1 \<Rightarrow> exec j ss ws1)"

fun states ::
  "('p, 'x) job \<Rightarrow> stmt list \<Rightarrow> ('p, 'o, 'x) worker list \<Rightarrow> ('p, 'o, 'x) worker list list" where
  "states j [] ws = [ws]"
| "states j (s # ss) ws =
     ws # (case exec_stmt j s ws of Inl e \<Rightarrow> [] | Inr ws1 \<Rightarrow> states j ss ws1)"

text \<open>The epochs \<^verbatim>\<open>train\<close> is called with, in order.\<close>

definition epochs_visited :: "int \<Rightarrow> int list" where
  "epochs_visited n_epochs =
     concat (map (\<lambda>s. case s of Train epoch \<Rightarrow> [epoch] | _ \<Rightarrow> []) (script n_epochs))"

subsection \<open>Trainability\<close>

datatype phase = FROZEN | TRAINABLE | MIXED

text \<open>
  Full fine-tune: every parameter of the model has \<^verbatim>\<open>requires_grad\<close>. Frozen-feature:
  exactly the parameters outside \<^verbatim>\<open>model.features\<close> have it.
\<close>

definition phase_of :: "('p, 'o, 'x) worker \<Rightarrow> phase" where
  "phase_of w =
     (if list_all (requires_grad w) (model_params w) then TRAINABLE
      else if list_all (\<lambda>param. requires_grad w param = (param \<notin> set (feature_params w)))
                (model_params w)
      then FROZEN
      else MIXED)"

text \<open>
  Modelled from the spec: the model class (\<^verbatim>\<open>xception.py\<close>) is not among the sources;
  the spec has the freshly loaded model with only the classifier head trainable, the
  rest frozen.
\<close>

definition initially_frozen :: "('p, 'o, 'x) worker list \<Rightarrow> bool" where
  "initially_frozen ws = list_all (\<lambda>w. phase_of w = FROZEN) ws"

text \<open>How often a sequence changes its value.\<close>

definition changes :: "'a list \<Rightarrow> nat" where
  "changes xs = length (filter (\<lambda>(a, b). a \<noteq> b) (zip xs (tl xs)))"

subsection \<open>Predicates for stating the properties\<close>

text \<open>The fields of a worker that no statement of the script assigns.\<close>

definition same_surroundings :: "('p, 'o, 'x) worker \<Rightarrow> ('p, 'o, 'x) worker \<Rightarrow> bool" where
  "same_surroundings w w' \<longleftrightarrow>
     train_shard w' = train_shard w \<and> test_shard w' = test_shard w \<and> clock w' = clock w \<and>
     model_params w' = model_params w \<and> feature_params w' = feature_params w \<and>
     opt_step w' = opt_step w"

text \<open>
  What makes a run complete: the logging interval is not zero (line 123 divides by it),
  the network gives one logit per class, and every worker has shards whose labels are
  classes and a validation shard that is not empty.
\<close>

definition well_shaped :: "('p, 'x) job \<Rightarrow> bool" where
  "well_shaped j \<longleftrightarrow>
     log_interval (cfg_args (job_cfg j)) \<noteq> 0 \<and>
     (\<forall>p mode data i. length (net j p mode data i) = length (classw j))"

definition labelled :: "('p, 'x) job \<Rightarrow> ('p, 'o, 'x) worker \<Rightarrow> bool" where
  "labelled j w \<longleftrightarrow>
     test_shard w \<noteq> [] \<and> list_all (\<lambda>(x, t). t < length (classw j)) (test_shard w) \<and>
     (\<forall>epoch. list_all (\<lambda>(x, t). t < length (classw j)) (train_shard w epoch))"

subsection \<open>The contract of the evaluation pass\<close>

text \<open>
  The evaluation pass in the words of the specification, written from the network, the
  class weights and the validation shard alone, to be compared with \<open>test_local\<close> and
  \<open>test\<close> above. The prediction for a row of logits is the index of its first NaN, or
  else of its first largest entry.
\<close>

definition is_prediction :: "fval list \<Rightarrow> nat \<Rightarrow> bool" where
  "is_prediction row t \<longleftrightarrow>
     t < length row \<and>
     (if list_ex (\<lambda>v. v = NaN) row
      then row ! t = NaN \<and> list_all (\<lambda>i. row ! i \<noteq> NaN) [0..<t]
      else list_all (\<lambda>i. \<not> fless (row ! t) (row ! i)) [0..<length row] \<and>
           list_all (\<lambda>i. fless (row ! i) (row ! t)) [0..<t])"

text \<open>
  What one batch of a worker's validation shard adds: the weighted negative
  log-likelihoods of its samples, summed, and the number of its samples that the network,
  in evaluation mode, predicts right.
\<close>

definition spec_summed_loss :: "('p, 'x) job \<Rightarrow> ('p, 'o, 'x) worker \<Rightarrow> 'x batch \<Rightarrow> fval" where
  "spec_summed_loss j w b =
     fsum (map (\<lambda>k. fmul (classw j ! snd (b ! k))
                  (fneg (log_softmax (net j (weights w) False (map fst b) k) ! snd (b ! k))))
             [0..<length b])"

definition spec_summed_correct :: "('p, 'x) job \<Rightarrow> ('p, 'o, 'x) worker \<Rightarrow> 'x batch \<Rightarrow> nat" where
  "spec_summed_correct j w b =
     length (filter (\<lambda>k. is_prediction (net j (weights w) False (map fst b) k) (snd (b ! k)))
               [0..<length b])"

text \<open>
  The two local means of a worker: the sums over the batches of its validation shard,
  divided by the size of the shard.
\<close>

definition spec_local_loss :: "('p, 'x) job \<Rightarrow> ('p, 'o, 'x) worker \<Rightarrow> fval" where
  "spec_local_loss j w =
     fdiv (fsum (map (spec_summed_loss j w)
             (chunks (nat (test_batch_size (cfg_args (job_cfg j)))) (test_shard w))))
       (Fin (real (length (test_shard w))))"

definition spec_local_accuracy :: "('p, 'x) job \<Rightarrow> ('p, 'o, 'x) worker \<Rightarrow> fval" where
  "spec_local_accuracy j w =
     Fin (real (sum_list (map (spec_summed_correct j w)
                  (chunks (nat (test_batch_size (cfg_args (job_cfg j)))) (test_shard w)))) /
          real (length (test_shard w)))"





text \<open>An all-reduce that averages exactly.\<close>

definition exact_average :: "fval list \<Rightarrow> string \<Rightarrow> fval" where
  "exact_average ts name = fdiv (fsum ts) (Fin (real (length ts)))"

text \<open>What one batch adds to the two accumulators of the loop, when the loss accepts it.\<close>

definition batch_loss :: "('p, 'x) job \<Rightarrow> ('p, 'o, 'x) worker \<Rightarrow> 'x batch \<Rightarrow> fval" where
  "batch_loss j w b =
     fsum (map (\<lambda>(x, t). fmul (classw j ! t) (fneg (log_softmax x ! t)))
             (zip (model_call j w (map fst b)) (map snd b)))"

definition batch_correct :: "('p, 'x) job \<Rightarrow> ('p, 'o, 'x) worker \<Rightarrow> 'x batch \<Rightarrow> nat" where
  "batch_correct j w b = count_correct (model_call j w (map fst b)) (map snd b)"

subsection \<open>A small instance\<close>

text \<open>
  One worker, two classes, the default arguments but for \<^verbatim>\<open>--data-folder /mnt --epochs 2\<close>,
  an all-reduce that averages exactly and a clock standing at 9:05 on 2019-07-04.
\<close>

definition demo_cmdline :: cmdline where
  "demo_cmdline = no_arguments\<lparr>arg_data_folder := Some ''/mnt'', arg_epochs := Some 2\<rparr>"

definition demo_config :: config where
  "demo_config =
     \<lparr> cfg_args = parse_args demo_cmdline, cuda = True, loader_workers = Some 2,
       dataset_dir = ''/mnt/data_wf'', weights_path = ''/mnt/weights/xception_imagenet.pth'',
       model_device = CUDA, cfg_optimizer = make_optimizer (parse_args demo_cmdline) 1,
       class_weights_device = CUDA \<rparr>"

definition demo_job :: "(nat, nat) job" where
  "demo_job =
     \<lparr> job_cfg = demo_config, classw = [Fin 1, Fin 1],
       net = (\<lambda>p mode data i. [Fin (real (data ! i)), Fin 0]),
       allreduce = exact_average \<rparr>"


definition demo_clock :: "nat \<Rightarrow> datetime" where
  "demo_clock k = \<lparr> year = 2019, month = 7, day = 4, hour = 9, minute = 5 \<rparr>"

text \<open>A clock that advances one minute from reading to reading.\<close>

definition ticking_clock :: "nat \<Rightarrow> datetime" where
  "ticking_clock k = \<lparr> year = 2019, month = 7, day = 4, hour = 9, minute = 5 + k \<rparr>"

definition demo_worker :: "(nat, unit, nat) worker" where
  "demo_worker =
     \<lparr> train_shard = (\<lambda>epoch. [(1, 0)]), test_shard = [(1, 0), (0, 1)],
       clock = demo_clock, model_params = [''features.w'', ''fc.w''],
       feature_params = [''features.w''],
       opt_step = (\<lambda>opt rg epoch batch_idx (p, os) b. (Suc p, os)),
       weights = 0, opt_state = (), training = False,
       requires_grad = (\<lambda>param. param = ''fc.w''), sampler_epoch = 0,
       run_log = [], stdout = [], files = Map.empty, clock_reads = 0 \<rparr>"

definition ticking_worker :: "(nat, unit, nat) worker" where
  "ticking_worker = demo_worker\<lparr>clock := ticking_clock\<rparr>"

section \<open>Auxiliary facts\<close>



subsection \<open>Floating-point values\<close>






















lemma fless_trans: "\<not> fless v a \<Longrightarrow> fless v x \<Longrightarrow> a \<noteq> NaN \<Longrightarrow> fless a x"
  by (cases v; cases a; cases x) auto

lemma fless_not_back: "\<not> fless v a \<Longrightarrow> fless v x \<Longrightarrow> \<not> fless x a"
  by (cases v; cases a; cases x) auto

lemma fless_irrefl: "\<not> fless v v"
  by (cases v) auto

lemma is_prediction_unique:
  assumes "is_prediction row t" and "is_prediction row t'"
  shows "t = t'"
proof (rule ccontr)
  assume ne: "t \<noteq> t'"
  have False if a: "is_prediction row s" and b: "is_prediction row s'" and lt: "s < s'" for s s'
  proof (cases "list_ex (\<lambda>v. v = NaN) row")
    case True
    with a b lt show False by (auto simp: is_prediction_def list_all_iff)
  next
    case False
    with b lt have "fless (row ! s) (row ! s')" by (auto simp: is_prediction_def list_all_iff)
    moreover from False a b have "\<not> fless (row ! s) (row ! s')"
      by (auto simp: is_prediction_def list_all_iff)
    ultimately show False by simp
  qed
  with assms ne show False by (metis nat_neq_iff)
qed

lemma argmax_from_prediction:
  "is_prediction pre best \<Longrightarrow> v = pre ! best \<Longrightarrow> i = length pre \<Longrightarrow>
     is_prediction (pre @ xs) (argmax_from xs i best v)"
proof (induction xs arbitrary: pre best v i)
  case Nil
  then show ?case by simp
next
  case (Cons x xs)
  from Cons.prems have b: "best < length pre" by (simp add: is_prediction_def)
  show ?case
  proof (cases "v = NaN")
    case True
    with Cons.prems b have "pre ! best = NaN" by simp
    with b have "list_ex (\<lambda>v. v = NaN) pre"
      unfolding list_ex_iff by (metis nth_mem)
    with Cons.prems b True show ?thesis
      by (auto simp: is_prediction_def list_all_iff list_ex_iff nth_append)
  next
    case False
    with Cons.prems b have clean: "\<not> list_ex (\<lambda>v. v = NaN) pre"
      by (auto simp: is_prediction_def split: if_splits)
    from clean Cons.prems have
      top: "\<forall>j < length pre. \<not> fless v (pre ! j)" and
      first: "\<forall>j < best. fless (pre ! j) v"
      by (auto simp: is_prediction_def list_all_iff)
    from clean have nn: "\<forall>j < length pre. pre ! j \<noteq> NaN"
      unfolding list_ex_iff by (metis nth_mem)
    have step: "is_prediction (pre @ [x]) (if x = NaN \<or> fless v x then i else best)"
    proof (cases "x = NaN")
      case True
      with nn Cons.prems show ?thesis
        by (auto simp: is_prediction_def list_all_iff list_ex_iff nth_append)
    next
      case xn: False
      show ?thesis
      proof (cases "fless v x")
        case True
        have "\<not> fless x (pre ! j)" "fless (pre ! j) x" if "j < length pre" for j
        proof -
          from top nn that have j: "\<not> fless v (pre ! j)" "pre ! j \<noteq> NaN" by simp_all
          show "\<not> fless x (pre ! j)" using j(1) True by (rule fless_not_back)
          show "fless (pre ! j) x" using j(1) True j(2) by (rule fless_trans)
        qed
        with xn clean True Cons.prems show ?thesis
          by (auto simp: is_prediction_def list_all_iff list_ex_iff nth_append fless_irrefl)
      next
        case ff: False
        with xn clean top first b Cons.prems show ?thesis
          by (auto simp: is_prediction_def list_all_iff list_ex_iff nth_append)
      qed
    qed
    have "is_prediction ((pre @ [x]) @ xs)
        (argmax_from xs (Suc i) (if x = NaN \<or> fless v x then i else best)
           (if x = NaN \<or> fless v x then x else v))"
    proof (rule Cons.IH [OF step])
      show "(if x = NaN \<or> fless v x then x else v) =
          (pre @ [x]) ! (if x = NaN \<or> fless v x then i else best)"
        using Cons.prems b by (simp add: nth_append)
      show "Suc i = length (pre @ [x])" using Cons.prems by simp
    qed
    with False show ?thesis by (cases "x = NaN \<or> fless v x") auto
  qed
qed

lemma argmax_prediction: "row \<noteq> [] \<Longrightarrow> is_prediction row (argmax row)"
proof -
  assume "row \<noteq> []"
  then obtain v xs where row: "row = v # xs" by (cases row) auto
  have "is_prediction [v] 0"
    by (simp add: is_prediction_def fless_irrefl)
  from argmax_from_prediction [OF this, of v 1 xs] show ?thesis
    by (simp add: row argmax_def)
qed

lemma argmax_iff: "row \<noteq> [] \<Longrightarrow> argmax row = t \<longleftrightarrow> is_prediction row t"
  using argmax_prediction is_prediction_unique by blast






subsection \<open>Results of lists\<close>

lemma map_result_all2:
  "map_result f xs = Inr ys \<Longrightarrow> list_all2 (\<lambda>x y. f x = Inr y) xs ys"
  by (induction xs arbitrary: ys) (auto split: sum.splits)

lemma map_result_length: "map_result f xs = Inr ys \<Longrightarrow> length ys = length xs"
  by (drule map_result_all2) (simp add: list_all2_lengthD)

lemma map_result_nth:
  "map_result f xs = Inr ys \<Longrightarrow> i < length xs \<Longrightarrow> f (xs ! i) = Inr (ys ! i)"
  by (drule map_result_all2) (erule (1) list_all2_nthD)

lemma map_result_total:
  "(\<And>x. x \<in> set xs \<Longrightarrow> \<exists>y. f x = Inr y) \<Longrightarrow> \<exists>ys. map_result f xs = Inr ys"
proof (induction xs)
  case Nil
  then show ?case by simp
next
  case (Cons x xs)
  then obtain y ys where "f x = Inr y" "map_result f xs = Inr ys"
    by (meson list.set_intros)
  then show ?case by simp
qed

subsection \<open>Batches\<close>

lemma concat_chunks: "0 < n \<Longrightarrow> concat (chunks n xs) = xs"
proof (induction n xs rule: chunks.induct)
  case (1 n xs)
  then show ?case
    by (subst chunks.simps) auto
qed



lemma set_chunks: "b \<in> set (chunks n xs) \<Longrightarrow> set b \<subseteq> set xs"
proof (induction n xs rule: chunks.induct)
  case (1 n xs)
  from "1.prems" have ne: "\<not> (n = 0 \<or> xs = [])"
    by (subst (asm) chunks.simps) (auto split: if_splits)
  from "1.prems" ne have "b = take n xs \<or> b \<in> set (chunks n (drop n xs))"
    by (subst (asm) chunks.simps) auto
  then show ?case
  proof
    assume "b = take n xs"
    then show ?thesis by (simp add: set_take_subset)
  next
    assume "b \<in> set (chunks n (drop n xs))"
    with "1.IH" ne have "set b \<subseteq> set (drop n xs)" by blast
    then show ?thesis using set_drop_subset by fastforce
  qed
qed

subsection \<open>What \<open>train\<close> leaves alone\<close>

lemma train_loop_frame:
  "train_loop j epoch ls ll bs w = Inr w' \<Longrightarrow>
     same_surroundings w w' \<and> requires_grad w' = requires_grad w \<and> files w' = files w \<and>
     clock_reads w' = clock_reads w \<and> training w' = training w \<and>
     sampler_epoch w' = sampler_epoch w"
proof (induction bs arbitrary: w)
  case Nil
  then show ?case by (simp add: same_surroundings_def)
next
  case (Cons a bs)
  obtain batch_idx b where a: "a = (batch_idx, b)" by (cases a)
  obtain p os where st: "opt_step w (cfg_optimizer (job_cfg j)) (requires_grad w) epoch batch_idx
      (weights w, opt_state w) b = (p, os)" by (cases "opt_step w (cfg_optimizer (job_cfg j)) (requires_grad w) epoch batch_idx
      (weights w, opt_state w) b")
  from Cons.prems a st obtain w1 where
    rec: "train_loop j epoch ls ll bs w1 = Inr w'" and
    w1: "same_surroundings w w1 \<and> requires_grad w1 = requires_grad w \<and> files w1 = files w \<and>
     clock_reads w1 = clock_reads w \<and> training w1 = training w \<and>
     sampler_epoch w1 = sampler_epoch w"
    by (auto simp: Let_def same_surroundings_def split: if_splits sum.splits)
  from Cons.IH [OF rec] w1 show ?case
    by (simp add: same_surroundings_def)
qed

lemma train_frame:
  assumes "train j epoch w = Inr w'"
  shows "same_surroundings w w' \<and> requires_grad w' = requires_grad w \<and> files w' = files w \<and>
     clock_reads w' = clock_reads w \<and> training w' \<and> sampler_epoch w' = epoch"
  using train_loop_frame [OF assms [unfolded train_def Let_def]]
  by (simp add: same_surroundings_def)

subsection \<open>The evaluation pass\<close>

lemma test_loop_sums:
  "test_loop j w bs (l, a) = Inr (l', a') \<Longrightarrow>
     l' = foldl fadd l (map (batch_loss j w) bs) \<and>
     a' = a + real (sum_list (map (batch_correct j w) bs))"
proof (induction bs arbitrary: l a)
  case Nil
  then show ?case by simp
next
  case (Cons b bs)
  from Cons.prems obtain v where
    v: "val_criterion (classw j) (model_call j w (map fst b)) (map snd b) = Inr v" and
    rec: "test_loop j w bs (fadd l v, a + real (batch_correct j w b)) = Inr (l', a')"
    by (auto simp: Let_def batch_correct_def split: sum.splits)
  from v have "v = batch_loss j w b"
    by (auto simp: val_criterion_def batch_loss_def split: if_splits)
  with Cons.IH [OF rec] show ?case by simp
qed

lemma test_loop_accepts:
  "test_loop j w bs (l, a) = Inr (l', a') \<Longrightarrow> b \<in> set bs \<Longrightarrow>
     val_criterion (classw j) (model_call j w (map fst b)) (map snd b) = Inr (batch_loss j w b)"
proof (induction bs arbitrary: l a)
  case Nil
  then show ?case by simp
next
  case (Cons c bs)
  from Cons.prems(1) obtain v where
    v: "val_criterion (classw j) (model_call j w (map fst c)) (map snd c) = Inr v" and
    rec: "test_loop j w bs (fadd l v, a + real (batch_correct j w c)) = Inr (l', a')"
    by (auto simp: Let_def batch_correct_def split: sum.splits)
  from v have "v = batch_loss j w c"
    by (auto simp: val_criterion_def batch_loss_def split: if_splits)
  with v Cons.IH [OF rec] Cons.prems(2) show ?case by auto
qed

lemma zip_rows:
  "zip (map f [0..<length b]) (map snd b) = map (\<lambda>k. (f k, snd (b ! k))) [0..<length b]"
  by (rule nth_equalityI) simp_all

lemma batch_loss_eq:
  "\<not> training w \<Longrightarrow> weights w = weights w0 \<Longrightarrow> batch_loss j w b = spec_summed_loss j w0 b"
  by (simp add: batch_loss_def spec_summed_loss_def model_call_def zip_rows [where b = b, simplified] comp_def)

lemma batch_correct_eq:
  assumes "\<not> training w" and "weights w = weights w0"
    and "val_criterion (classw j) (model_call j w (map fst b)) (map snd b) = Inr v"
  shows "batch_correct j w b = spec_summed_correct j w0 b"
proof -
  let ?row = "\<lambda>k. net j (weights w0) False (map fst b) k"
  from assms(3) have
    rows: "\<forall>x \<in> set (model_call j w (map fst b)). length x = length (classw j)" and
    tgts: "\<forall>t \<in> set (map snd b). t < length (classw j)"
    by (auto simp: val_criterion_def list_ex_iff not_le split: if_splits)
  have ne: "?row k \<noteq> []" if "k < length b" for k
  proof -
    from that have "snd (b ! k) \<in> set (map snd b)" by (metis length_map nth_map nth_mem)
    with tgts have "0 < length (classw j)" by fastforce
    moreover from that assms(1,2) have "?row k \<in> set (model_call j w (map fst b))"
      by (auto simp: model_call_def)
    ultimately show ?thesis using rows by fastforce
  qed
  have "batch_correct j w b =
        length (filter (\<lambda>(x, t). argmax x = t) (map (\<lambda>k. (?row k, snd (b ! k))) [0..<length b]))"
    using assms(1,2)
    by (simp add: batch_correct_def count_correct_def model_call_def zip_rows [where b = b, simplified])
  also have "\<dots> = length (filter (\<lambda>k. argmax (?row k) = snd (b ! k)) [0..<length b])"
    by (simp add: filter_map comp_def)
  also have "filter (\<lambda>k. argmax (?row k) = snd (b ! k)) [0..<length b] =
             filter (\<lambda>k. is_prediction (?row k) (snd (b ! k))) [0..<length b]"
    by (rule filter_cong) (auto simp: argmax_iff [OF ne])
  finally show ?thesis by (simp add: spec_summed_correct_def)
qed

lemma test_local_closed:
  assumes "test_local j w = Inr (l, a)"
  shows "test_shard w \<noteq> [] \<and> l = spec_local_loss j w \<and> a = spec_local_accuracy j w"
proof -
  define w1 where "w1 = w\<lparr>training := False\<rparr>"
  define bs where "bs = chunks (nat (test_batch_size (cfg_args (job_cfg j)))) (test_shard w)"
  from assms obtain l0 a0 where
    loop: "test_loop j w1 bs (Fin 0, 0) = Inr (l0, a0)" and
    ne: "test_shard w \<noteq> []" and
    l: "l = fdiv l0 (Fin (real (length (test_shard w))))" and
    a: "a = Fin (a0 / real (length (test_shard w)))"
    by (auto simp: test_local_def Let_def w1_def bs_def split: sum.splits if_splits)
  have w1: "\<not> training w1" "weights w1 = weights w" by (simp_all add: w1_def)
  have losses: "map (batch_loss j w1) bs = map (spec_summed_loss j w) bs"
    by (rule map_cong) (simp_all add: batch_loss_eq [OF w1])
  have counts: "map (batch_correct j w1) bs = map (spec_summed_correct j w) bs"
    by (rule map_cong) (simp_all add: batch_correct_eq [OF w1 test_loop_accepts [OF loop]])
  from test_loop_sums [OF loop] have
    "l0 = fsum (map (spec_summed_loss j w) bs)" "a0 = real (sum_list (map (spec_summed_correct j w) bs))"
    unfolding losses counts fsum_def by simp_all
  with ne l a show ?thesis
    unfolding spec_local_loss_def spec_local_accuracy_def bs_def [symmetric] by simp
qed












subsection \<open>\<open>test\<close> on the cluster\<close>

lemma test_Inr:
  assumes "test j ws = Inr ws'"
  obtains L A where
    "test_metrics j ws = Inr (L, A)"
    "length ws' = length ws"
    "\<And>i. i < length ws \<Longrightarrow> ws' ! i = test_report i L A ((ws ! i)\<lparr>training := False\<rparr>)"
proof -
  from assms obtain L A where
    m: "test_metrics j ws = Inr (L, A)" and
    ws': "ws' = map (\<lambda>(rank, w). test_report rank L A (w\<lparr>training := False\<rparr>)) (enumerate 0 ws)"
    by (auto simp: test_def split: sum.splits)
  from ws' have "length ws' = length ws" by simp
  moreover from ws' have "ws' ! i = test_report i L A ((ws ! i)\<lparr>training := False\<rparr>)"
    if "i < length ws" for i
    using that by (simp add: nth_enumerate_eq)
  ultimately show thesis using m that by blast
qed

lemma test_report_frame:
  "same_surroundings w (test_report rank L A w) \<and>
   weights (test_report rank L A w) = weights w \<and>
   opt_state (test_report rank L A w) = opt_state w \<and>
   requires_grad (test_report rank L A w) = requires_grad w \<and>
   files (test_report rank L A w) = files w \<and>
   clock_reads (test_report rank L A w) = clock_reads w \<and>
   training (test_report rank L A w) = training w"
  by (simp add: test_report_def same_surroundings_def Let_def)

lemma test_frame:
  assumes "test j ws = Inr ws'" and "i < length ws"
  shows "same_surroundings (ws ! i) (ws' ! i) \<and> weights (ws' ! i) = weights (ws ! i) \<and>
         opt_state (ws' ! i) = opt_state (ws ! i) \<and>
         requires_grad (ws' ! i) = requires_grad (ws ! i) \<and> files (ws' ! i) = files (ws ! i) \<and>
         clock_reads (ws' ! i) = clock_reads (ws ! i)"
proof -
  from assms obtain L A where
    "ws' ! i = test_report i L A ((ws ! i)\<lparr>training := False\<rparr>)"
    by (auto elim: test_Inr)
  then show ?thesis
    using test_report_frame [of "(ws ! i)\<lparr>training := False\<rparr>" i L A]
    by (simp add: same_surroundings_def)
qed

lemma checkpoint_frame:
  "same_surroundings w (checkpoint j w) \<and> weights (checkpoint j w) = weights w \<and>
   requires_grad (checkpoint j w) = requires_grad w"
  by (simp add: checkpoint_def same_surroundings_def)

lemma unfreeze_frame:
  "same_surroundings w (unfreeze w) \<and> weights (unfreeze w) = weights w \<and>
   files (unfreeze w) = files w \<and> clock_reads (unfreeze w) = clock_reads w"
  by (simp add: unfreeze_def same_surroundings_def)

lemma same_surroundings_refl: "same_surroundings w w"
  by (simp add: same_surroundings_def)

lemma same_surroundings_trans:
  "same_surroundings a b \<Longrightarrow> same_surroundings b c \<Longrightarrow> same_surroundings a c"
  by (simp add: same_surroundings_def)

subsection \<open>The loops and the script\<close>

lemma exec_append:
  "exec j (ss @ ts) ws = (case exec j ss ws of Inl e \<Rightarrow> Inl e | Inr ws1 \<Rightarrow> exec j ts ws1)"
  by (induction ss arbitrary: ws) (auto split: sum.splits)

lemma epoch_body_exec: "epoch_body j epoch ws = exec j [Train epoch, Test, Checkpoint] ws"
  by (simp add: epoch_body_def split: sum.splits)

lemma epoch_loop_exec: "epoch_loop j es ws = exec j (loop_stmts es) ws"
proof (induction es arbitrary: ws)
  case Nil
  then show ?case by (simp add: loop_stmts_def)
next
  case (Cons e es)
  have "loop_stmts (e # es) = [Train e, Test, Checkpoint] @ loop_stmts es"
    by (simp add: loop_stmts_def)
  then have "exec j (loop_stmts (e # es)) ws =
      (case exec j [Train e, Test, Checkpoint] ws of Inl x \<Rightarrow> Inl x
       | Inr ws1 \<Rightarrow> exec j (loop_stmts es) ws1)"
    by (simp only: exec_append)
  then show ?case
    by (simp add: epoch_body_exec Cons.IH split: sum.splits del: exec.simps)
qed

lemma main_exec: "main j ws = exec j (script (epochs (cfg_args (job_cfg j)))) ws"
  by (simp add: main_def script_def exec_append epoch_loop_exec split: sum.splits)

lemma states_append:
  "exec j ss ws = Inr ws1 \<Longrightarrow> states j (ss @ ts) ws = butlast (states j ss ws) @ states j ts ws1"
proof (induction ss arbitrary: ws)
  case Nil
  then show ?case by simp
next
  case (Cons s ss)
  from Cons.prems obtain w2 where s: "exec_stmt j s ws = Inr w2" and r: "exec j ss w2 = Inr ws1"
    by (auto split: sum.splits)
  have "states j ss w2 \<noteq> []" by (cases ss) auto
  with Cons.IH [OF r] s show ?case by simp
qed

lemma last_states: "exec j ss ws = Inr ws' \<Longrightarrow> last (states j ss ws) = ws'"
proof (induction ss arbitrary: ws)
  case Nil
  then show ?case by simp
next
  case (Cons s ss)
  from Cons.prems obtain w2 where s: "exec_stmt j s ws = Inr w2" and r: "exec j ss w2 = Inr ws'"
    by (auto split: sum.splits)
  have "states j ss w2 \<noteq> []" by (cases ss) auto
  with Cons.IH [OF r] s show ?case by simp
qed

subsection \<open>Phases\<close>

lemma phase_of_cong:
  "requires_grad w' = requires_grad w \<Longrightarrow> model_params w' = model_params w \<Longrightarrow>
   feature_params w' = feature_params w \<Longrightarrow> phase_of w' = phase_of w"
  by (simp add: phase_of_def)

lemma fold_set_True:
  "fold (\<lambda>param rg. rg(param := True)) ps rg = (\<lambda>q. q \<in> set ps \<or> rg q)"
  by (induction ps arbitrary: rg) (auto simp: fun_eq_iff)

lemma unfreeze_trainable: "phase_of w = FROZEN \<Longrightarrow> phase_of (unfreeze w) = TRAINABLE"
  by (auto simp: phase_of_def unfreeze_def fold_set_True list_all_iff split: if_splits)

lemma exec_stmt_keeps_phase:
  assumes "exec_stmt j s ws = Inr ws'" and "s \<noteq> Unfreeze"
  shows "length ws' = length ws \<and> map phase_of ws' = map phase_of ws"
proof -
  have len: "length ws' = length ws"
    using assms by (cases s) (auto dest: map_result_length elim: test_Inr)
  have "phase_of (ws' ! i) = phase_of (ws ! i)" if i: "i < length ws" for i
  proof (cases s)
    case (Train epoch)
    with assms map_result_nth [of "train j epoch" ws ws' i] i
    have "train j epoch (ws ! i) = Inr (ws' ! i)" by simp
    from train_frame [OF this] show ?thesis
      by (intro phase_of_cong) (simp_all add: same_surroundings_def)
  next
    case Test
    with assms test_frame [of j ws ws' i] i show ?thesis
      by (intro phase_of_cong) (simp_all add: same_surroundings_def)
  next
    case Checkpoint
    with assms i checkpoint_frame [of "ws ! i" j] show ?thesis
      by (intro phase_of_cong) (auto simp: same_surroundings_def)
  next
    case Unfreeze
    with assms show ?thesis by simp
  qed
  with len show ?thesis by (simp add: list_eq_iff_nth_eq)
qed

lemma states_keep_phase:
  "exec j ss ws = Inr ws' \<Longrightarrow> Unfreeze \<notin> set ss \<Longrightarrow>
     map (map phase_of) (states j ss ws) = replicate (Suc (length ss)) (map phase_of ws) \<and>
     map phase_of ws' = map phase_of ws \<and> length ws' = length ws"
proof (induction ss arbitrary: ws)
  case Nil
  then show ?case by simp
next
  case (Cons s ss)
  from Cons.prems obtain w2 where s: "exec_stmt j s ws = Inr w2" and r: "exec j ss w2 = Inr ws'"
    by (auto split: sum.splits)
  from Cons.prems have "s \<noteq> Unfreeze" "Unfreeze \<notin> set ss" by auto
  with exec_stmt_keeps_phase [OF s] Cons.IH [OF r] s show ?case by simp
qed

lemma loop_stmts_no_unfreeze: "Unfreeze \<notin> set (loop_stmts es)"
  by (auto simp: loop_stmts_def)

lemma length_loop_stmts: "length (loop_stmts es) = 3 * length es"
  by (induction es) (simp_all add: loop_stmts_def)

lemma changes_Cons2: "changes (x # y # ys) = (if x \<noteq> y then 1 else 0) + changes (y # ys)"
  by (simp add: changes_def)

lemma changes_replicate: "changes (replicate n y) = 0"
proof (induction n)
  case 0
  then show ?case by (simp add: changes_def)
next
  case (Suc n)
  then show ?case
    by (cases n) (simp_all add: changes_Cons2, simp add: changes_def)
qed

lemma changes_two_blocks:
  "0 < b \<Longrightarrow> x \<noteq> y \<Longrightarrow> changes (replicate (Suc a) x @ replicate b y) = 1"
proof (induction a)
  case 0
  then obtain b' where "b = Suc b'" by (cases b) auto
  with 0 changes_replicate [of "Suc b'" y] show ?case
    by (simp add: changes_Cons2)
next
  case (Suc a)
  then show ?case by (simp add: changes_Cons2)
qed

subsection \<open>Frames of the statements\<close>

lemma exec_stmt_frame:
  assumes "exec_stmt j s ws = Inr ws'"
  shows "length ws' = length ws"
    and "i < length ws \<Longrightarrow> same_surroundings (ws ! i) (ws' ! i)"
    and "i < length ws \<Longrightarrow> s \<noteq> Checkpoint \<Longrightarrow>
           files (ws' ! i) = files (ws ! i) \<and> clock_reads (ws' ! i) = clock_reads (ws ! i)"
    and "i < length ws \<Longrightarrow> \<forall>epoch. s \<noteq> Train epoch \<Longrightarrow> weights (ws' ! i) = weights (ws ! i)"
proof -
  show len: "length ws' = length ws"
    using assms by (cases s) (auto dest: map_result_length elim: test_Inr)
  show "same_surroundings (ws ! i) (ws' ! i)" if i: "i < length ws"
  proof (cases s)
    case (Train epoch)
    with assms map_result_nth [of "train j epoch" ws ws' i] i
    have "train j epoch (ws ! i) = Inr (ws' ! i)" by simp
    from train_frame [OF this] show ?thesis by simp
  next
    case Test
    with assms test_frame [of j ws ws' i] i show ?thesis by simp
  next
    case Checkpoint
    with assms i checkpoint_frame [of "ws ! i" j] show ?thesis by auto
  next
    case Unfreeze
    with assms i unfreeze_frame [of "ws ! i"] show ?thesis by auto
  qed
  show "files (ws' ! i) = files (ws ! i) \<and> clock_reads (ws' ! i) = clock_reads (ws ! i)"
    if i: "i < length ws" and s: "s \<noteq> Checkpoint"
  proof (cases s)
    case (Train epoch)
    with assms map_result_nth [of "train j epoch" ws ws' i] i
    have "train j epoch (ws ! i) = Inr (ws' ! i)" by simp
    from train_frame [OF this] show ?thesis by simp
  next
    case Test
    with assms test_frame [of j ws ws' i] i show ?thesis by simp
  next
    case Checkpoint
    with s show ?thesis by simp
  next
    case Unfreeze
    with assms i unfreeze_frame [of "ws ! i"] show ?thesis by auto
  qed
  show "weights (ws' ! i) = weights (ws ! i)"
    if i: "i < length ws" and s: "\<forall>epoch. s \<noteq> Train epoch"
  proof (cases s)
    case (Train epoch)
    with s show ?thesis by simp
  next
    case Test
    with assms test_frame [of j ws ws' i] i show ?thesis by simp
  next
    case Checkpoint
    with assms i checkpoint_frame [of "ws ! i" j] show ?thesis by auto
  next
    case Unfreeze
    with assms i unfreeze_frame [of "ws ! i"] show ?thesis by auto
  qed
qed

subsection \<open>Runs that complete\<close>

lemma val_criterion_total:
  assumes "well_shaped j" and "list_all (\<lambda>(x, t). t < length (classw j)) b"
  shows "\<exists>v. val_criterion (classw j) (model_call j w (map fst b)) (map snd b) = Inr v"
  using assms
  by (auto simp: val_criterion_def well_shaped_def model_call_def list_ex_iff list_all_iff)

lemma criterion_total:
  assumes "well_shaped j" and "list_all (\<lambda>(x, t). t < length (classw j)) b"
  shows "\<exists>v. criterion (classw j) (model_call j w (map fst b)) (map snd b) = Inr v"
  using val_criterion_total [OF assms, of w] by (auto simp: criterion_def)

lemma train_loop_total:
  assumes "well_shaped j"
  shows "(\<forall>(k, b) \<in> set bs. list_all (\<lambda>(x, t). t < length (classw j)) b) \<Longrightarrow>
           \<exists>w'. train_loop j epoch ls ll bs w = Inr w'"
proof (induction bs arbitrary: w)
  case Nil
  then show ?case by simp
next
  case (Cons a bs)
  obtain batch_idx b where a: "a = (batch_idx, b)" by (cases a)
  from Cons.prems a criterion_total [OF assms, of b w] obtain v where
    v: "criterion (classw j) (model_call j w (map fst b)) (map snd b) = Inr v" by auto
  from assms have li: "log_interval (cfg_args (job_cfg j)) \<noteq> 0"
    by (simp add: well_shaped_def)
  from Cons.prems have rest: "\<forall>(k, b) \<in> set bs. list_all (\<lambda>(x, t). t < length (classw j)) b"
    by simp
  show ?case
    using Cons.IH [OF rest] by (simp add: a v li Let_def split: prod.splits)
qed

lemma train_total:
  assumes "well_shaped j" and "labelled j w"
  shows "\<exists>w'. train j epoch w = Inr w'"
proof -
  let ?bs = "chunks (nat (batch_size (cfg_args (job_cfg j)))) (train_shard w epoch)"
  have "\<forall>b \<in> set ?bs. list_all (\<lambda>(x, t). t < length (classw j)) b"
    using assms(2) set_chunks [of _ "nat (batch_size (cfg_args (job_cfg j)))" "train_shard w epoch"]
    by (fastforce simp: labelled_def list_all_iff)
  then have "\<forall>(k, b) \<in> set (enumerate 0 ?bs). list_all (\<lambda>(x, t). t < length (classw j)) b"
    by (auto simp: in_set_enumerate_eq)
  from train_loop_total [OF assms(1) this] show ?thesis
    by (simp add: train_def Let_def)
qed

lemma test_loop_total:
  assumes "well_shaped j"
  shows "(\<forall>b \<in> set bs. list_all (\<lambda>(x, t). t < length (classw j)) b) \<Longrightarrow>
           \<exists>r. test_loop j w bs acc = Inr r"
proof (induction bs arbitrary: acc)
  case Nil
  then show ?case by (cases acc) simp
next
  case (Cons b bs)
  obtain l a where acc: "acc = (l, a)" by (cases acc)
  from Cons.prems val_criterion_total [OF assms, of b w] obtain v where
    "val_criterion (classw j) (model_call j w (map fst b)) (map snd b) = Inr v" by auto
  with Cons.IH Cons.prems show ?case by (simp add: acc Let_def)
qed

lemma test_local_total:
  assumes "well_shaped j" and "labelled j w"
  shows "\<exists>m. test_local j w = Inr m"
proof -
  let ?bs = "chunks (nat (test_batch_size (cfg_args (job_cfg j)))) (test_shard w)"
  have "\<forall>b \<in> set ?bs. list_all (\<lambda>(x, t). t < length (classw j)) b"
    using assms(2) set_chunks [of _ "nat (test_batch_size (cfg_args (job_cfg j)))" "test_shard w"]
    by (fastforce simp: labelled_def list_all_iff)
  from test_loop_total [OF assms(1) this, of "w\<lparr>training := False\<rparr>" "(Fin 0, 0)"]
  obtain l a where "test_loop j (w\<lparr>training := False\<rparr>) ?bs (Fin 0, 0) = Inr (l, a)" by auto
  with assms(2) show ?thesis
    by (simp add: test_local_def labelled_def Let_def)
qed

lemma exec_stmt_total:
  assumes "well_shaped j" and "\<forall>w \<in> set ws. labelled j w"
  shows "\<exists>ws'. exec_stmt j s ws = Inr ws'"
proof (cases s)
  case (Train epoch)
  from assms have "\<exists>ws'. map_result (train j epoch) ws = Inr ws'"
    by (intro map_result_total train_total) auto
  then show ?thesis by (simp add: Train)
next
  case Test
  from assms have "\<exists>ms. map_result (test_local j) ws = Inr ms"
    by (intro map_result_total test_local_total) auto
  then show ?thesis by (auto simp: Test test_def test_metrics_def)
qed simp_all

lemma labelled_cong: "same_surroundings w w' \<Longrightarrow> labelled j w \<Longrightarrow> labelled j w'"
  by (simp add: labelled_def same_surroundings_def)

lemma exec_total:
  assumes "well_shaped j"
  shows "\<forall>w \<in> set ws. labelled j w \<Longrightarrow> \<exists>ws'. exec j ss ws = Inr ws'"
proof (induction ss arbitrary: ws)
  case Nil
  then show ?case by simp
next
  case (Cons s ss)
  from exec_stmt_total [OF assms Cons.prems] obtain w2 where s: "exec_stmt j s ws = Inr w2"
    by blast
  have "\<forall>w \<in> set w2. labelled j w"
  proof
    fix w assume "w \<in> set w2"
    then obtain i where i: "i < length w2" "w2 ! i = w" by (auto simp: in_set_conv_nth)
    with exec_stmt_frame(1) [OF s] exec_stmt_frame(2) [OF s, of i] Cons.prems
    show "labelled j w"
      by (auto intro: labelled_cong)
  qed
  from Cons.IH [OF this] s show ?case by simp
qed

lemma main_total:
  "well_shaped j \<Longrightarrow> \<forall>w \<in> set ws. labelled j w \<Longrightarrow> \<exists>ws'. main j ws = Inr ws'"
  by (simp add: main_exec exec_total)

subsection \<open>Checkpoints\<close>

lemma epoch_body_files:
  assumes "epoch_body j epoch ws = Inr ws'" and i: "i < length ws"
  shows "length ws' = length ws"
    and "same_surroundings (ws ! i) (ws' ! i)"
    and "clock_reads (ws' ! i) = Suc (clock_reads (ws ! i))"
    and "files (ws' ! i) =
           (files (ws ! i))(checkpoint_path (cfg_args (job_cfg j))
              (clock (ws ! i) (clock_reads (ws ! i))) \<mapsto> weights (ws' ! i))"
proof -
  from assms(1) obtain w1 w2 where
    tr: "exec_stmt j (Train epoch) ws = Inr w1" and
    te: "exec_stmt j Test w1 = Inr w2" and
    ws': "ws' = map (checkpoint j) w2"
    by (auto simp: epoch_body_def split: sum.splits)
  note f1 = exec_stmt_frame [OF tr] and f2 = exec_stmt_frame [OF te]
  from f1(1) f2(1) i have i1: "i < length w1" and i2: "i < length w2" by simp_all
  show "length ws' = length ws" using ws' f1(1) f2(1) by simp
  have s: "same_surroundings (ws ! i) (w2 ! i)"
    using f1(2) [OF i] f2(2) [OF i1] by (rule same_surroundings_trans)
  have fc: "files (w2 ! i) = files (ws ! i) \<and> clock_reads (w2 ! i) = clock_reads (ws ! i)"
    using f1(3) [OF i] f2(3) [OF i1] by simp
  from ws' i2 have eq: "ws' ! i = checkpoint j (w2 ! i)" by simp
  show "same_surroundings (ws ! i) (ws' ! i)"
    using s checkpoint_frame [of "w2 ! i" j] eq by (auto intro: same_surroundings_trans)
  show "clock_reads (ws' ! i) = Suc (clock_reads (ws ! i))"
    using eq fc by (simp add: checkpoint_def)
  show "files (ws' ! i) =
           (files (ws ! i))(checkpoint_path (cfg_args (job_cfg j))
              (clock (ws ! i) (clock_reads (ws ! i))) \<mapsto> weights (ws' ! i))"
    using eq fc s by (simp add: checkpoint_def same_surroundings_def)
qed

lemma epoch_loop_files:
  "epoch_loop j es ws = Inr ws' \<Longrightarrow> i < length ws \<Longrightarrow>
     length ws' = length ws \<and> same_surroundings (ws ! i) (ws' ! i) \<and>
     clock_reads (ws' ! i) = clock_reads (ws ! i) + length es \<and>
     dom (files (ws' ! i)) =
       dom (files (ws ! i)) \<union>
       (\<lambda>k. checkpoint_path (cfg_args (job_cfg j)) (clock (ws ! i) k)) `
         {clock_reads (ws ! i)..<clock_reads (ws ! i) + length es} \<and>
     (es \<noteq> [] \<longrightarrow>
        files (ws' ! i)
          (checkpoint_path (cfg_args (job_cfg j)) (clock (ws ! i) (clock_reads (ws' ! i) - 1))) =
        Some (weights (ws' ! i)))"
proof (induction es arbitrary: ws)
  case Nil
  then show ?case by (simp add: same_surroundings_refl)
next
  case (Cons e es)
  from Cons.prems obtain w1 where
    b: "epoch_body j e ws = Inr w1" and r: "epoch_loop j es w1 = Inr ws'"
    by (auto split: sum.splits)
  note eb = epoch_body_files [OF b Cons.prems(2)]
  from eb(1) Cons.prems(2) have i1: "i < length w1" by simp
  note ih = Cons.IH [OF r i1]
  from eb(2) have ck: "clock (w1 ! i) = clock (ws ! i)" by (simp add: same_surroundings_def)
  let ?r = "clock_reads (ws ! i)"
  let ?p = "\<lambda>k. checkpoint_path (cfg_args (job_cfg j)) (clock (ws ! i) k)"
  have "{?r..<?r + length (e # es)} = insert ?r {Suc ?r..<Suc ?r + length es}"
    by auto
  then have img: "?p ` {?r..<?r + length (e # es)} = insert (?p ?r) (?p ` {Suc ?r..<Suc ?r + length es})"
    by simp
  have last: "files (ws' ! i) (?p (clock_reads (ws' ! i) - 1)) = Some (weights (ws' ! i))"
  proof (cases es)
    case Nil
    with r have "ws' = w1" by simp
    with eb(3,4) show ?thesis by simp
  next
    case (Cons e' es')
    with ih have "files (ws' ! i)
          (checkpoint_path (cfg_args (job_cfg j)) (clock (w1 ! i) (clock_reads (ws' ! i) - 1))) =
        Some (weights (ws' ! i))" by blast
    then show ?thesis by (simp only: ck)
  qed
  from ih have len: "length ws' = length w1"
    and sur: "same_surroundings (w1 ! i) (ws' ! i)"
    and cr: "clock_reads (ws' ! i) = clock_reads (w1 ! i) + length es"
    and dm: "dom (files (ws' ! i)) =
       dom (files (w1 ! i)) \<union>
       (\<lambda>k. checkpoint_path (cfg_args (job_cfg j)) (clock (w1 ! i) k)) `
         {clock_reads (w1 ! i)..<clock_reads (w1 ! i) + length es}"
    by blast+
  have "length ws' = length ws" using len eb(1) by simp
  moreover have "same_surroundings (ws ! i) (ws' ! i)"
    using eb(2) sur by (rule same_surroundings_trans)
  moreover have "clock_reads (ws' ! i) = ?r + length (e # es)"
    using cr eb(3) by simp
  moreover have "dom (files (ws' ! i)) = dom (files (ws ! i)) \<union> ?p ` {?r..<?r + length (e # es)}"
    unfolding img dm eb(3) eb(4) ck by auto
  ultimately show ?case using last by blast
qed

lemma length_py_range: "length (py_range a b) = nat (b - a)"
  by (simp add: py_range_def)

lemma py_range_warmup: "py_range 1 N_FINETUNE_EPOCHS = [1]"
  by (simp add: py_range_def N_FINETUNE_EPOCHS_def upto.simps)

lemma trains_of_loop:
  "concat (map (\<lambda>s. case s of Train epoch \<Rightarrow> [epoch] | _ \<Rightarrow> []) (loop_stmts es)) = es"
  by (induction es) (simp_all add: loop_stmts_def)

lemma epochs_visited_eq:
  "epochs_visited n = py_range 1 N_FINETUNE_EPOCHS @ py_range N_FINETUNE_EPOCHS (n + 1)"
  by (simp add: epochs_visited_def script_def trains_of_loop)

lemma main_files:
  assumes "main j ws = Inr ws'" and i: "i < length ws"
  defines "a \<equiv> cfg_args (job_cfg j)"
  defines "n \<equiv> length (epochs_visited (epochs a))"
  defines "r \<equiv> clock_reads (ws ! i)"
  shows "length ws' = length ws"
    and "same_surroundings (ws ! i) (ws' ! i)"
    and "clock_reads (ws' ! i) = r + n"
    and "dom (files (ws' ! i)) =
           dom (files (ws ! i)) \<union> (\<lambda>k. checkpoint_path a (clock (ws ! i) k)) ` {r..<r + n}"
    and "files (ws' ! i) (checkpoint_path a (clock (ws ! i) (r + n - 1))) = Some (weights (ws' ! i))"
proof -
  let ?es1 = "py_range 1 N_FINETUNE_EPOCHS"
  let ?es2 = "py_range N_FINETUNE_EPOCHS (epochs a + 1)"
  from assms(1) obtain w1 where
    l1: "epoch_loop j ?es1 ws = Inr w1" and
    l2: "epoch_loop j ?es2 (map unfreeze w1) = Inr ws'"
    by (auto simp: main_def a_def split: sum.splits)
  note f1 = epoch_loop_files [OF l1 i, folded a_def r_def]
  from f1 i have i1: "i < length (map unfreeze w1)" by simp
  note f2 = epoch_loop_files [OF l2 i1, folded a_def]
  have u: "map unfreeze w1 ! i = unfreeze (w1 ! i)" using i1 by simp
  note uf = unfreeze_frame [of "w1 ! i"]
  have n: "n = length ?es1 + length ?es2" by (simp add: n_def epochs_visited_eq)
  have ne: "?es1 \<noteq> []" by (simp add: py_range_warmup)
  from f1 uf have ck: "clock (unfreeze (w1 ! i)) = clock (ws ! i)"
    by (simp add: same_surroundings_def)
  show "length ws' = length ws" using f1 f2 by simp
  show "same_surroundings (ws ! i) (ws' ! i)"
    using f1 f2 uf u by (auto intro: same_surroundings_trans)
  show cr: "clock_reads (ws' ! i) = r + n" using f1 f2 uf u n by simp
  have "{r..<r + n} = {r..<r + length ?es1} \<union> {r + length ?es1..<r + length ?es1 + length ?es2}"
    unfolding n by auto
  then show "dom (files (ws' ! i)) =
           dom (files (ws ! i)) \<union> (\<lambda>k. checkpoint_path a (clock (ws ! i) k)) ` {r..<r + n}"
    using f1 f2 uf u ck by (simp add: image_Un Un_assoc)
  show "files (ws' ! i) (checkpoint_path a (clock (ws ! i) (r + n - 1))) = Some (weights (ws' ! i))"
  proof (cases "?es2 = []")
    case True
    with l2 have eq: "ws' ! i = unfreeze (w1 ! i)" using u by simp
    from f1 ne have "files (w1 ! i) (checkpoint_path a (clock (ws ! i) (clock_reads (w1 ! i) - 1))) =
        Some (weights (w1 ! i))" by blast
    moreover from f1 True n have "clock_reads (w1 ! i) = r + n" by simp
    ultimately show ?thesis using uf eq by simp
  next
    case False
    with f2 have "files (ws' ! i)
        (checkpoint_path a (clock (map unfreeze w1 ! i) (clock_reads (ws' ! i) - 1))) =
        Some (weights (ws' ! i))" by blast
    moreover note cr
    ultimately show ?thesis using u ck by simp
  qed
qed


subsection \<open>The phases along the script\<close>

lemma nth_of_blocks:
  assumes "map (map f) css = replicate a (replicate n x) @ replicate b (replicate n y)"
    and "i < n"
  shows "map (\<lambda>c. f (c ! i)) css = replicate a x @ replicate b y"
proof -
  have len: "length c = n" if "c \<in> set css" for c
  proof -
    from that have "map f c \<in> set (map (map f) css)" by simp
    then have "map f c \<in> set (replicate a (replicate n x) @ replicate b (replicate n y))"
      by (simp only: assms(1))
    then have "map f c = replicate n x \<or> map f c = replicate n y"
      by (auto split: if_splits)
    then show ?thesis by (metis length_map length_replicate)
  qed
  have "map (\<lambda>c. f (c ! i)) css = map (\<lambda>ps. ps ! i) (map (map f) css)"
    using len assms(2) by (simp add: comp_def)
  also have "\<dots> = replicate a x @ replicate b y"
    using assms(2) by (simp add: assms(1))
  finally show ?thesis .
qed

lemma butlast_replicate_Suc: "butlast (replicate (Suc n) x) = replicate n x"
  by (induction n) simp_all

lemma replicate_Suc_snoc: "replicate n x @ x # xs = replicate (Suc n) x @ xs"
  by (induction n) simp_all

lemma script_phases:
  assumes run: "main j ws = Inr ws'" and frozen: "initially_frozen ws"
  shows "map (map phase_of) (states j (script (epochs (cfg_args (job_cfg j)))) ws) =
           replicate (1 + 3 * nat (N_FINETUNE_EPOCHS - 1)) (replicate (length ws) FROZEN) @
           replicate (1 + 3 * nat (epochs (cfg_args (job_cfg j)) + 1 - N_FINETUNE_EPOCHS))
             (replicate (length ws) TRAINABLE)"
proof -
  let ?A = "loop_stmts (py_range 1 N_FINETUNE_EPOCHS)"
  let ?B = "loop_stmts (py_range N_FINETUNE_EPOCHS (epochs (cfg_args (job_cfg j)) + 1))"
  have sc: "script (epochs (cfg_args (job_cfg j))) = ?A @ Unfreeze # ?B"
    by (simp add: script_def)
  from run obtain w1 where
    a: "exec j ?A ws = Inr w1" and b: "exec j ?B (map unfreeze w1) = Inr ws'"
    by (auto simp: main_exec sc exec_append split: sum.splits)
  have f0: "map phase_of ws = replicate (length ws) FROZEN"
    using frozen by (auto simp: initially_frozen_def list_all_iff map_replicate_const [symmetric])
  note ka = states_keep_phase [OF a loop_stmts_no_unfreeze]
  from ka f0 have f1: "map phase_of w1 = replicate (length ws) FROZEN" and l1: "length w1 = length ws"
    by simp_all
  have t2: "map phase_of (map unfreeze w1) = replicate (length ws) TRAINABLE"
  proof -
    have "phase_of w = FROZEN" if "w \<in> set w1" for w
    proof -
      from that have "phase_of w \<in> set (map phase_of w1)" by simp
      then show ?thesis by (simp add: f1 split: if_splits)
    qed
    then have "map phase_of (map unfreeze w1) = map (\<lambda>w. TRAINABLE) w1"
      by (simp add: unfreeze_trainable)
    then show ?thesis by (simp add: map_replicate_const l1)
  qed
  note kb = states_keep_phase [OF b loop_stmts_no_unfreeze]
  have u: "exec j (Unfreeze # ?B) w1 = Inr ws'" using b by simp
  have st: "states j (?A @ Unfreeze # ?B) ws =
      butlast (states j ?A ws) @ w1 # states j ?B (map unfreeze w1)"
    using states_append [OF a, of "Unfreeze # ?B"] by simp
  have "map (map phase_of) (butlast (states j ?A ws)) =
      replicate (length ?A) (replicate (length ws) FROZEN)"
    using ka f0 by (simp only: map_butlast butlast_replicate_Suc)
  moreover have "map (map phase_of) (states j ?B (map unfreeze w1)) =
      replicate (Suc (length ?B)) (replicate (length ws) TRAINABLE)"
    using kb t2 by simp
  ultimately have "map (map phase_of) (states j (?A @ Unfreeze # ?B) ws) =
      replicate (Suc (length ?A)) (replicate (length ws) FROZEN) @
      replicate (Suc (length ?B)) (replicate (length ws) TRAINABLE)"
    unfolding st by (simp only: map_append list.map f1 replicate_Suc_snoc)
  then show ?thesis
    unfolding sc by (simp add: length_loop_stmts length_py_range)
qed

subsection \<open>What \<open>test\<close> reports\<close>

lemma test_local_eq:
  assumes "test_local j w = Inr m"
  shows "m = (spec_local_loss j w, spec_local_accuracy j w)"
  using test_local_closed [of j w "fst m" "snd m"] assms
  by (simp add: prod_eq_iff)

lemma test_metrics_eq:
  assumes "test_metrics j ws = Inr (L, A)"
  shows "L = metric_average j (map (spec_local_loss j) ws) ''avg_loss'' \<and>
         A = metric_average j (map (spec_local_accuracy j) ws) ''avg_accuracy'' \<and>
         (\<forall>i < length ws. test_local j (ws ! i) = Inr (spec_local_loss j (ws ! i), spec_local_accuracy j (ws ! i)))"
proof -
  from assms obtain ms where
    ms: "map_result (test_local j) ws = Inr ms" and
    L: "L = metric_average j (map fst ms) ''avg_loss''" and
    A: "A = metric_average j (map snd ms) ''avg_accuracy''"
    by (auto simp: test_metrics_def split: sum.splits)
  have each: "ms ! i = (spec_local_loss j (ws ! i), spec_local_accuracy j (ws ! i))" if "i < length ws" for i
    using map_result_nth [OF ms that] by (rule test_local_eq)
  have len: "length ms = length ws" using ms by (rule map_result_length)
  have "map fst ms = map (spec_local_loss j) ws" "map snd ms = map (spec_local_accuracy j) ws"
    using each len by (simp_all add: list_eq_iff_nth_eq)
  moreover have "test_local j (ws ! i) = Inr (spec_local_loss j (ws ! i), spec_local_accuracy j (ws ! i))"
    if "i < length ws" for i
    using map_result_nth [OF ms that] each [OF that] by simp
  ultimately show ?thesis using L A by simp
qed

lemma test_report_effects:
  "run_log (test_report rank L A w) = run_log w @ [(''val_loss'', L), (''val_acc'', A)]"
  "stdout (test_report rank L A w) =
     (if rank = 0 then stdout w @ [TestSummary L (fmul (Fin 100) A)] else stdout w)"
  by (simp_all add: test_report_def Let_def)

subsection \<open>The small instance\<close>

lemma demo_epochs: "epochs (cfg_args (job_cfg demo_job)) = 2"
  by (simp add: demo_job_def demo_config_def demo_cmdline_def parse_args_def with_default_def)

lemma demo_well_shaped: "well_shaped demo_job"
  by (simp add: well_shaped_def demo_job_def demo_config_def demo_cmdline_def parse_args_def
      with_default_def no_arguments_def)

lemma demo_labelled: "labelled demo_job demo_worker"
  by (simp add: labelled_def demo_job_def demo_worker_def)

lemma demo_frozen: "phase_of demo_worker = FROZEN"
  by (simp add: phase_of_def demo_worker_def)

lemma demo_path:
  "checkpoint_path (cfg_args (job_cfg demo_job)) (demo_clock k) =
     ''./outputs/xception_train_2019-07-04_9-5.pth''"
  by (simp add: checkpoint_path_def demo_job_def demo_config_def demo_cmdline_def parse_args_def
      with_default_def no_arguments_def os_path_join_def CKPT_def time_name_def date_str_def
      demo_clock_def zero_pad_def str_nat.simps digit_def)

lemma demo_run: "\<exists>ws'. main demo_job (replicate n demo_worker) = Inr ws'"
  by (rule main_total) (simp_all add: demo_well_shaped demo_labelled)

lemma demo_test: "\<exists>ws'. test demo_job (replicate n demo_worker) = Inr ws'"
  using exec_stmt_total [of demo_job "replicate n demo_worker" Test]
  by (simp add: demo_well_shaped demo_labelled)

lemma demo_frozen_cluster: "initially_frozen (replicate n demo_worker)"
  by (simp add: initially_frozen_def list_all_iff demo_frozen)

lemma demo_args:
  "cfg_args (job_cfg demo_job) =
     \<lparr> data_folder = Some ''/mnt'', output_dir = ''./outputs'', batch_size = 64,
       test_batch_size = 1000, epochs = 2, lr = 1 / 100, momentum = 1 / 2, no_cuda = False,
       seed = 42, log_interval = 10, fp16_allreduce = False \<rparr>"
  by (simp add: demo_job_def demo_config_def demo_cmdline_def parse_args_def with_default_def
      no_arguments_def)

lemma ticking_path:
  "checkpoint_path (cfg_args (job_cfg demo_job)) (ticking_clock 0) =
     ''./outputs/xception_train_2019-07-04_9-5.pth''"
  "checkpoint_path (cfg_args (job_cfg demo_job)) (ticking_clock 1) =
     ''./outputs/xception_train_2019-07-04_9-6.pth''"
  "checkpoint_path (cfg_args (job_cfg demo_job)) (ticking_clock (Suc 0)) =
     ''./outputs/xception_train_2019-07-04_9-6.pth''"
  by (simp_all add: checkpoint_path_def demo_args os_path_join_def CKPT_def time_name_def
      date_str_def ticking_clock_def zero_pad_def str_nat.simps digit_def)

lemma demo_visited: "length (epochs_visited (epochs (cfg_args (job_cfg demo_job)))) = 2"
  by (simp add: demo_epochs epochs_visited_eq py_range_def N_FINETUNE_EPOCHS_def upto.simps)

lemma two_readings: "{0..<2::nat} = {0, 1}"
  by auto


lemma demo_test_batch_size: "test_batch_size (cfg_args (job_cfg demo_job)) = 1000"
  by (simp add: demo_args)

lemma demo_chunks: "chunks 1000 [a, b] = [[a, b]]"
  by (simp add: chunks.simps)




lemma demo_spec_accuracy: "spec_local_accuracy demo_job demo_worker = Fin (1 / 2)"
proof -
  have sh: "test_shard demo_worker = [(1, 0), (0, 1)]" "weights demo_worker = 0"
    by (simp_all add: demo_worker_def)
  have rows: "net demo_job p mode data k = [Fin (real (data ! k)), Fin 0]" for p mode data k
    by (simp add: demo_job_def)
  have p0: "is_prediction [Fin 1, Fin 0] 0" "\<not> is_prediction [Fin 0, Fin 0] (Suc 0)"
    by (simp_all add: is_prediction_def upt_rec)
  have c: "spec_summed_correct demo_job demo_worker [(Suc 0, 0), (0, Suc 0)] = Suc 0"
    by (simp add: spec_summed_correct_def rows upt_rec p0)
  show ?thesis
    by (simp add: spec_local_accuracy_def demo_test_batch_size sh demo_chunks c)
qed

section \<open>The claims\<close>

subsection \<open>C1\<close>

text \<open>
  Claim C1 says that with \<^verbatim>\<open>epochs = 2\<close> and \<^verbatim>\<open>N_FINETUNE_EPOCHS = 2\<close> the warm-up loop runs
  zero iterations and the epochs visited are exactly \<open>{2}\<close>. The warm-up loop is
  \<^verbatim>\<open>range(1, N_FINETUNE_EPOCHS)\<close>, which is \<open>[1]\<close>, not empty: the claim fails.
\<close>

theorem warmup_visits_epoch_one_counterexample:
  "py_range 1 N_FINETUNE_EPOCHS \<noteq> [] \<and> set (epochs_visited 2) \<noteq> {2}"
  by (simp add: epochs_visited_eq py_range_def N_FINETUNE_EPOCHS_def upto.simps)

text \<open>
  Claim C1, amended: with \<^verbatim>\<open>epochs = 2\<close> (and any number of workers) the warm-up loop
  runs once, for epoch 1, the fine-tune loop runs once, for epoch 2, the whole program
  is the seven calls below, and the epochs visited are exactly \<open>{1, 2}\<close>.
\<close>

theorem epochs_visited_two_epochs:
  assumes "epochs (cfg_args (job_cfg j)) = 2"
  shows "py_range 1 N_FINETUNE_EPOCHS = [1] \<and>
         py_range N_FINETUNE_EPOCHS (epochs (cfg_args (job_cfg j)) + 1) = [2] \<and>
         main j ws = exec j [Train 1, Test, Checkpoint, Unfreeze, Train 2, Test, Checkpoint] ws \<and>
         epochs_visited (epochs (cfg_args (job_cfg j))) = [1, 2] \<and>
         set (epochs_visited (epochs (cfg_args (job_cfg j)))) = {1, 2}"
proof -
  have r2: "py_range N_FINETUNE_EPOCHS 3 = [2]"
    by (simp add: py_range_def N_FINETUNE_EPOCHS_def upto.simps)
  have "script 2 = [Train 1, Test, Checkpoint, Unfreeze, Train 2, Test, Checkpoint]"
    by (simp add: script_def py_range_warmup r2 loop_stmts_def)
  then show ?thesis
    using assms r2 by (simp add: main_exec py_range_warmup epochs_visited_eq)
qed

theorem epochs_visited_two_epochs_witness:
  "epochs (cfg_args (job_cfg demo_job)) = 2 \<and>
   main demo_job [demo_worker] =
     exec demo_job [Train 1, Test, Checkpoint, Unfreeze, Train 2, Test, Checkpoint] [demo_worker] \<and>
   set (epochs_visited (epochs (cfg_args (job_cfg demo_job)))) = {1, 2}"
  using epochs_visited_two_epochs [OF demo_epochs, of "[demo_worker]"] demo_epochs by simp

subsection \<open>C2\<close>

text \<open>
  Claim C2: a run of the evaluation loop goes over the local validation shard once, batch
  by batch, with the network in evaluation mode, adding up the summed (not averaged)
  weighted loss and the number of correct predictions of every batch; it divides both
  sums by the size of the local shard; it hands each of the two local means, as a 32-bit
  tensor, to the all-reduce on its own, under its own name; what a worker logs and
  prints afterwards is built from its own state and the two averages alone; and no
  parameter of the model (nor a buffer of the optimizer, nor a \<^verbatim>\<open>requires_grad\<close> flag) is
  changed.
\<close>

theorem test_contract:
  assumes "test j ws = Inr ws'" and "i < length ws"
  shows "(0 < test_batch_size (cfg_args (job_cfg j)) \<longrightarrow>
            concat (chunks (nat (test_batch_size (cfg_args (job_cfg j)))) (test_shard (ws ! i))) =
            test_shard (ws ! i)) \<and>
         test_local j (ws ! i) =
           Inr (spec_local_loss j (ws ! i), spec_local_accuracy j (ws ! i)) \<and>
         (let L = allreduce j (map (\<lambda>w. to_float32 (spec_local_loss j w)) ws) ''avg_loss'';
              A = allreduce j (map (\<lambda>w. to_float32 (spec_local_accuracy j w)) ws) ''avg_accuracy''
          in test_metrics j ws = Inr (L, A) \<and>
             ws' ! i =
               (ws ! i)\<lparr>training := False,
                 run_log := run_log (ws ! i) @ [(''val_loss'', L), (''val_acc'', A)],
                 stdout := (if i = 0 then stdout (ws ! i) @ [TestSummary L (fmul (Fin 100) A)]
                            else stdout (ws ! i))\<rparr>) \<and>
         length ws' = length ws \<and>
         weights (ws' ! i) = weights (ws ! i) \<and> opt_state (ws' ! i) = opt_state (ws ! i) \<and>
         requires_grad (ws' ! i) = requires_grad (ws ! i)"
proof -
  define L where "L = allreduce j (map (\<lambda>w. to_float32 (spec_local_loss j w)) ws) ''avg_loss''"
  define A where
    "A = allreduce j (map (\<lambda>w. to_float32 (spec_local_accuracy j w)) ws) ''avg_accuracy''"
  from assms(1) obtain L' A' where
    m: "test_metrics j ws = Inr (L', A')" and
    len: "length ws' = length ws" and
    rep: "\<And>k. k < length ws \<Longrightarrow> ws' ! k = test_report k L' A' ((ws ! k)\<lparr>training := False\<rparr>)"
    by (auto elim: test_Inr)
  note eq = test_metrics_eq [OF m]
  from eq have "L' = L" "A' = A"
    by (simp_all add: L_def A_def metric_average_def comp_def)
  from eq assms(2) have loc:
    "test_local j (ws ! i) = Inr (spec_local_loss j (ws ! i), spec_local_accuracy j (ws ! i))"
    by blast
  have c1: "0 < test_batch_size (cfg_args (job_cfg j)) \<longrightarrow>
            concat (chunks (nat (test_batch_size (cfg_args (job_cfg j)))) (test_shard (ws ! i))) =
            test_shard (ws ! i)"
    by (simp add: concat_chunks)
  have c3: "test_metrics j ws = Inr (L, A)"
    using m \<open>L' = L\<close> \<open>A' = A\<close> by simp
  have c4: "ws' ! i =
      (ws ! i)\<lparr>training := False,
        run_log := run_log (ws ! i) @ [(''val_loss'', L), (''val_acc'', A)],
        stdout := (if i = 0 then stdout (ws ! i) @ [TestSummary L (fmul (Fin 100) A)]
                   else stdout (ws ! i))\<rparr>"
    using rep [OF assms(2)] \<open>L' = L\<close> \<open>A' = A\<close> by (simp add: test_report_def Let_def)
  have c5: "weights (ws' ! i) = weights (ws ! i) \<and> opt_state (ws' ! i) = opt_state (ws ! i) \<and>
         requires_grad (ws' ! i) = requires_grad (ws ! i)"
    using test_frame [OF assms] by simp
  from c1 loc c3 c4 len c5 show ?thesis
    unfolding L_def A_def Let_def by (intro conjI) simp_all
qed

theorem test_contract_witness:
  "\<exists>ws'. test demo_job [demo_worker, demo_worker] = Inr ws' \<and>
     (1::nat) < length [demo_worker, demo_worker] \<and>
     (0::int) < test_batch_size (cfg_args (job_cfg demo_job)) \<and>
     test_local demo_job ([demo_worker, demo_worker] ! 1) =
       Inr (spec_local_loss demo_job ([demo_worker, demo_worker] ! 1),
            spec_local_accuracy demo_job ([demo_worker, demo_worker] ! 1)) \<and>
     spec_local_accuracy demo_job ([demo_worker, demo_worker] ! 1) = Fin (1 / 2) \<and>
     weights (ws' ! 1) = weights ([demo_worker, demo_worker] ! 1) \<and>
     length ws' = length [demo_worker, demo_worker]"
proof -
  from demo_test [of 2] obtain ws' where t: "test demo_job [demo_worker, demo_worker] = Inr ws'"
    by (auto simp: numeral_2_eq_2)
  have i: "(1::nat) < length [demo_worker, demo_worker]" by simp
  have bs: "(0::int) < test_batch_size (cfg_args (job_cfg demo_job))"
    by (simp add: demo_args)
  have acc: "spec_local_accuracy demo_job ([demo_worker, demo_worker] ! 1) = Fin (1 / 2)"
    by (simp add: demo_spec_accuracy)
  note c = test_contract [OF t i]
  from c [THEN conjunct2, THEN conjunct1] c [THEN conjunct2, THEN conjunct2, THEN conjunct2]
    bs t i acc
  show ?thesis by (intro exI [of _ ws'] conjI) simp_all
qed

subsection \<open>C3\<close>

text \<open>
  Claim C3: over any complete run, whatever the number of epochs and whatever the
  evaluations give, every worker goes from frozen-feature to full fine-tune exactly
  once, after the warm-up epochs (\<open>N_FINETUNE_EPOCHS - 1\<close> of them, three calls each),
  and never back. The model as loaded is taken to be frozen (\<open>initially_frozen\<close>). The
  sequence is that of the states the run passes through, which ends in its result.
\<close>

theorem unfreeze_exactly_once:
  assumes "main j ws = Inr ws'" and "initially_frozen ws" and "i < length ws"
  shows "map (\<lambda>c. phase_of (c ! i)) (states j (script (epochs (cfg_args (job_cfg j)))) ws) =
           replicate (1 + 3 * nat (N_FINETUNE_EPOCHS - 1)) FROZEN @
           replicate (1 + 3 * nat (epochs (cfg_args (job_cfg j)) + 1 - N_FINETUNE_EPOCHS)) TRAINABLE \<and>
         changes (map (\<lambda>c. phase_of (c ! i))
           (states j (script (epochs (cfg_args (job_cfg j)))) ws)) = 1 \<and>
         last (states j (script (epochs (cfg_args (job_cfg j)))) ws) = ws' \<and>
         take (3 * nat (N_FINETUNE_EPOCHS - 1)) (script (epochs (cfg_args (job_cfg j)))) =
           loop_stmts (py_range 1 N_FINETUNE_EPOCHS) \<and>
         script (epochs (cfg_args (job_cfg j))) ! (3 * nat (N_FINETUNE_EPOCHS - 1)) = Unfreeze"
proof -
  let ?E = "epochs (cfg_args (job_cfg j))"
  let ?ph = "map (\<lambda>c. phase_of (c ! i)) (states j (script ?E) ws)"
  have ph: "?ph = replicate (1 + 3 * nat (N_FINETUNE_EPOCHS - 1)) FROZEN @
      replicate (1 + 3 * nat (?E + 1 - N_FINETUNE_EPOCHS)) TRAINABLE"
    using nth_of_blocks [OF script_phases [OF assms(1,2)] assms(3)] .
  have "changes (replicate (Suc a) FROZEN @ replicate (Suc b) TRAINABLE) = 1" for a b
    by (rule changes_two_blocks) simp_all
  then have "changes ?ph = 1"
    unfolding ph by (simp only: plus_1_eq_Suc)
  moreover have "last (states j (script ?E) ws) = ws'"
    using assms(1) by (simp add: main_exec last_states)
  moreover have "length (loop_stmts (py_range 1 N_FINETUNE_EPOCHS)) = 3 * nat (N_FINETUNE_EPOCHS - 1)"
    by (simp add: length_loop_stmts length_py_range)
  then have "take (3 * nat (N_FINETUNE_EPOCHS - 1)) (script ?E) =
           loop_stmts (py_range 1 N_FINETUNE_EPOCHS) \<and>
         script ?E ! (3 * nat (N_FINETUNE_EPOCHS - 1)) = Unfreeze"
    by (simp add: script_def nth_append)
  ultimately show ?thesis using ph by blast
qed

theorem unfreeze_exactly_once_witness:
  "\<exists>ws'. main demo_job [demo_worker] = Inr ws' \<and> initially_frozen [demo_worker] \<and>
     (0::nat) < length [demo_worker] \<and>
     map (\<lambda>c. phase_of (c ! 0)) (states demo_job (script 2) [demo_worker]) =
       [FROZEN, FROZEN, FROZEN, FROZEN, TRAINABLE, TRAINABLE, TRAINABLE, TRAINABLE] \<and>
     changes (map (\<lambda>c. phase_of (c ! 0)) (states demo_job (script 2) [demo_worker])) = 1"
proof -
  from demo_run [of 1] obtain ws' where run: "main demo_job [demo_worker] = Inr ws'"
    by auto
  have fr: "initially_frozen [demo_worker]"
    using demo_frozen_cluster [of 1] by simp
  have i: "(0::nat) < length [demo_worker]" by simp
  have n: "replicate (1 + 3 * nat (N_FINETUNE_EPOCHS - 1)) FROZEN @
        replicate (1 + 3 * nat (2 + 1 - N_FINETUNE_EPOCHS)) TRAINABLE =
      [FROZEN, FROZEN, FROZEN, FROZEN, TRAINABLE, TRAINABLE, TRAINABLE, TRAINABLE]"
    by (simp add: N_FINETUNE_EPOCHS_def numeral_eq_Suc)
  note c = unfreeze_exactly_once [OF run fr i, unfolded demo_epochs n]
  from c have p1: "map (\<lambda>c. phase_of (c ! 0)) (states demo_job (script 2) [demo_worker]) =
       [FROZEN, FROZEN, FROZEN, FROZEN, TRAINABLE, TRAINABLE, TRAINABLE, TRAINABLE]"
    by (rule conjunct1)
  from c have p2: "changes (map (\<lambda>c. phase_of (c ! 0)) (states demo_job (script 2) [demo_worker])) = 1"
    by (rule conjunct1 [OF conjunct2])
  show ?thesis
    using run fr i p1 p2 by (intro exI [of _ ws'] conjI) assumption+
qed

subsection \<open>C4\<close>




subsection \<open>C5\<close>

text \<open>
  Claim C5 says that every completed epoch leaves a new checkpoint file, one file per
  epoch. The name has the minute as its finest part, so two epochs whose saves fall in
  the same minute write the same file: on the small instance, whose clock stands still,
  the run saves twice and leaves one file.
\<close>

theorem same_minute_one_file_counterexample:
  "main demo_job [demo_worker] = Inr (projr (main demo_job [demo_worker])) \<and>
   map clock_reads (projr (main demo_job [demo_worker])) = [2] \<and>
   map (dom \<circ> files) (projr (main demo_job [demo_worker])) =
     [{''./outputs/xception_train_2019-07-04_9-5.pth''}]"
proof -
  from demo_run [of 1] obtain ws' where run: "main demo_job [demo_worker] = Inr ws'"
    by auto
  have i: "(0::nat) < length [demo_worker]" by simp
  note f = main_files [OF run i]
  from f(1) obtain w where ws': "ws' = [w]"
    by (cases ws') auto
  have "clock_reads w = 2"
    using f(3) by (simp add: ws' demo_visited) (simp add: demo_worker_def)
  moreover have "dom (files w) = {''./outputs/xception_train_2019-07-04_9-5.pth''}"
  proof -
    have "clock demo_worker = demo_clock" "files demo_worker = Map.empty"
      "clock_reads demo_worker = 0"
      by (simp_all add: demo_worker_def)
    with f(4) show ?thesis
      by (auto simp: ws' demo_visited demo_path)
  qed
  ultimately show ?thesis by (simp add: run ws')
qed

text \<open>
  Claim C5, amended: every epoch of either loop that completes ends, whatever the
  evaluation gave, with one \<^verbatim>\<open>torch.save\<close> of the worker's full parameter mapping to
  \<^verbatim>\<open>os.path.join(output_dir, 'xception_train_<date>_<hour>-<minute>.pth')\<close>, hour and
  minute as plain integers. A save overwrites the file of an earlier save in the same
  minute: after a complete run the files are those there before and the paths of the
  clock readings taken, the last of them holding the final parameters; they are one
  more per epoch when the paths of the readings differ from each other and from the files
  there before.
\<close>

theorem checkpoint_after_every_epoch:
  assumes "main j ws = Inr ws'" and "i < length ws"
  shows "clock_reads (ws' ! i) =
           clock_reads (ws ! i) + length (epochs_visited (epochs (cfg_args (job_cfg j)))) \<and>
         dom (files (ws' ! i)) =
           dom (files (ws ! i)) \<union>
           (\<lambda>k. checkpoint_path (cfg_args (job_cfg j)) (clock (ws ! i) k)) `
             {clock_reads (ws ! i)..<clock_reads (ws' ! i)} \<and>
         files (ws' ! i)
           (checkpoint_path (cfg_args (job_cfg j)) (clock (ws ! i) (clock_reads (ws' ! i) - 1))) =
           Some (weights (ws' ! i)) \<and>
         (finite (dom (files (ws ! i))) \<and>
          inj_on (\<lambda>k. checkpoint_path (cfg_args (job_cfg j)) (clock (ws ! i) k))
            {clock_reads (ws ! i)..<clock_reads (ws' ! i)} \<and>
          (\<lambda>k. checkpoint_path (cfg_args (job_cfg j)) (clock (ws ! i) k)) `
            {clock_reads (ws ! i)..<clock_reads (ws' ! i)} \<inter> dom (files (ws ! i)) = {} \<longrightarrow>
          card (dom (files (ws' ! i))) =
            card (dom (files (ws ! i))) + length (epochs_visited (epochs (cfg_args (job_cfg j))))) \<and>
         (epoch_body j epoch c = Inr c' \<and> k < length c \<longrightarrow>
            clock_reads (c' ! k) = Suc (clock_reads (c ! k)) \<and>
            files (c' ! k) =
              (files (c ! k))(checkpoint_path (cfg_args (job_cfg j))
                 (clock (c ! k) (clock_reads (c ! k))) \<mapsto> weights (c' ! k))) \<and>
         checkpoint_path a now =
           os_path_join (output_dir a)
             (''xception_train_'' @ date_str now @ ''_'' @ str_nat (hour now) @ ''-'' @
              str_nat (minute now) @ ''.pth'')"
proof -
  let ?n = "length (epochs_visited (epochs (cfg_args (job_cfg j))))"
  let ?r = "clock_reads (ws ! i)"
  let ?p = "\<lambda>k. checkpoint_path (cfg_args (job_cfg j)) (clock (ws ! i) k)"
  note f = main_files [OF assms]
  have cr: "clock_reads (ws' ! i) = ?r + ?n" by (rule f(3))
  have dm: "dom (files (ws' ! i)) = dom (files (ws ! i)) \<union> ?p ` {?r..<clock_reads (ws' ! i)}"
    unfolding cr by (rule f(4))
  have lst: "files (ws' ! i) (?p (clock_reads (ws' ! i) - 1)) = Some (weights (ws' ! i))"
    unfolding cr by (rule f(5))
  have cd: "card (dom (files (ws' ! i))) = card (dom (files (ws ! i))) + ?n"
    if "finite (dom (files (ws ! i)))" and "inj_on ?p {?r..<clock_reads (ws' ! i)}"
      and "?p ` {?r..<clock_reads (ws' ! i)} \<inter> dom (files (ws ! i)) = {}"
  proof -
    have "card (?p ` {?r..<clock_reads (ws' ! i)}) = ?n"
      using that(2) by (simp add: card_image cr)
    moreover have "card (dom (files (ws' ! i))) =
        card (dom (files (ws ! i))) + card (?p ` {?r..<clock_reads (ws' ! i)})"
      unfolding dm using that(1,3) by (intro card_Un_disjoint) auto
    ultimately show ?thesis by simp
  qed
  have eb: "clock_reads (c' ! k) = Suc (clock_reads (c ! k)) \<and>
            files (c' ! k) =
              (files (c ! k))(checkpoint_path (cfg_args (job_cfg j))
                 (clock (c ! k) (clock_reads (c ! k))) \<mapsto> weights (c' ! k))"
    if "epoch_body j epoch c = Inr c'" and "k < length c"
    using epoch_body_files(3,4) [OF that] by simp
  have nm: "checkpoint_path a now =
           os_path_join (output_dir a)
             (''xception_train_'' @ date_str now @ ''_'' @ str_nat (hour now) @ ''-'' @
              str_nat (minute now) @ ''.pth'')"
    by (simp add: checkpoint_path_def CKPT_def time_name_def)
  from cr dm lst cd eb nm show ?thesis by blast
qed

theorem checkpoint_after_every_epoch_witness:
  "\<exists>ws' c'.
     main demo_job [ticking_worker] = Inr ws' \<and> (0::nat) < length [ticking_worker] \<and>
     epoch_body demo_job 1 [ticking_worker] = Inr c' \<and>
     clock_reads (ws' ! 0) = 2 \<and>
     dom (files (ws' ! 0)) =
       {''./outputs/xception_train_2019-07-04_9-5.pth'',
        ''./outputs/xception_train_2019-07-04_9-6.pth''} \<and>
     card (dom (files (ws' ! 0))) = 2 \<and>
     files (ws' ! 0) ''./outputs/xception_train_2019-07-04_9-6.pth'' = Some (weights (ws' ! 0)) \<and>
     files (c' ! 0) = [''./outputs/xception_train_2019-07-04_9-5.pth'' \<mapsto> weights (c' ! 0)]"
proof -
  have lab: "labelled demo_job ticking_worker"
    using demo_labelled by (simp add: labelled_def ticking_worker_def)
  have w: "clock ticking_worker = ticking_clock" "files ticking_worker = Map.empty"
    "clock_reads ticking_worker = 0"
    by (simp_all add: ticking_worker_def demo_worker_def)
  from main_total [OF demo_well_shaped, of "[ticking_worker]"] lab
  obtain ws' where run: "main demo_job [ticking_worker] = Inr ws'" by auto
  from exec_total [OF demo_well_shaped, of "[ticking_worker]" "[Train 1, Test, Checkpoint]"] lab
  obtain c' where body: "epoch_body demo_job 1 [ticking_worker] = Inr c'"
    by (auto simp: epoch_body_exec)
  have i: "(0::nat) < length [ticking_worker]" by simp
  note th = checkpoint_after_every_epoch [OF run i, of 1 "[ticking_worker]" c' 0,
      unfolded demo_visited nth_Cons_0 w]
  from th [THEN conjunct1] have cr: "clock_reads (ws' ! 0) = 2" by simp
  have img: "(\<lambda>k. checkpoint_path (cfg_args (job_cfg demo_job)) (ticking_clock k)) ` {0..<2} =
      {''./outputs/xception_train_2019-07-04_9-5.pth'',
       ''./outputs/xception_train_2019-07-04_9-6.pth''}"
    by (simp add: two_readings ticking_path)
  have inj: "inj_on (\<lambda>k. checkpoint_path (cfg_args (job_cfg demo_job)) (ticking_clock k)) {0..<2}"
    by (simp add: two_readings ticking_path)
  from th [THEN conjunct2, THEN conjunct1] have dm: "dom (files (ws' ! 0)) =
       {''./outputs/xception_train_2019-07-04_9-5.pth'',
        ''./outputs/xception_train_2019-07-04_9-6.pth''}"
    by (simp add: cr img)
  from th [THEN conjunct2, THEN conjunct2, THEN conjunct2, THEN conjunct1] inj
  have cd: "card (dom (files (ws' ! 0))) = 2"
    by (simp add: cr)
  from th [THEN conjunct2, THEN conjunct2, THEN conjunct1]
  have lst: "files (ws' ! 0) ''./outputs/xception_train_2019-07-04_9-6.pth'' =
      Some (weights (ws' ! 0))"
    by (simp add: cr ticking_path)
  from th [THEN conjunct2, THEN conjunct2, THEN conjunct2, THEN conjunct2, THEN conjunct1] body
  have eb: "files (c' ! 0) =
      [''./outputs/xception_train_2019-07-04_9-5.pth'' \<mapsto> weights (c' ! 0)]"
    by (simp add: ticking_path)
  show ?thesis
    using run i body cr dm cd lst eb by (intro exI [of _ ws'] exI [of _ c'] conjI) assumption+
qed

subsection \<open>C6\<close>




subsection \<open>C7\<close>

text \<open>
  Claim C7: in an evaluation pass every worker, whatever its rank, logs the same two
  averaged values as \<^verbatim>\<open>val_loss\<close> and \<^verbatim>\<open>val_acc\<close>, and the worker of rank zero, and no
  other, prints the summary line.
\<close>

theorem rank_zero_prints_all_log:
  assumes "test j ws = Inr ws'"
  shows "\<exists>L A. test_metrics j ws = Inr (L, A) \<and>
           (\<forall>i < length ws.
              run_log (ws' ! i) = run_log (ws ! i) @ [(''val_loss'', L), (''val_acc'', A)] \<and>
              stdout (ws' ! i) =
                (if i = 0 then stdout (ws ! i) @ [TestSummary L (fmul (Fin 100) A)] else stdout (ws ! i)))"
proof -
  from assms(1) obtain L A where
    m: "test_metrics j ws = Inr (L, A)" and
    rep: "\<And>k. k < length ws \<Longrightarrow> ws' ! k = test_report k L A ((ws ! k)\<lparr>training := False\<rparr>)"
    by (auto elim: test_Inr)
  have "run_log (ws' ! i) = run_log (ws ! i) @ [(''val_loss'', L), (''val_acc'', A)] \<and>
      stdout (ws' ! i) =
        (if i = 0 then stdout (ws ! i) @ [TestSummary L (fmul (Fin 100) A)] else stdout (ws ! i))"
    if "i < length ws" for i
    unfolding rep [OF that] by (simp add: test_report_effects)
  with m show ?thesis by blast
qed

theorem rank_zero_prints_all_log_witness:
  "\<exists>ws' L A. test demo_job [demo_worker, demo_worker] = Inr ws' \<and>
     run_log (ws' ! 0) = [(''val_loss'', L), (''val_acc'', A)] \<and>
     run_log (ws' ! 1) = [(''val_loss'', L), (''val_acc'', A)] \<and>
     stdout (ws' ! 0) = [TestSummary L (fmul (Fin 100) A)] \<and>
     stdout (ws' ! 1) = []"
proof -
  from demo_test [of 2] obtain ws' where t: "test demo_job [demo_worker, demo_worker] = Inr ws'"
    by (auto simp: numeral_2_eq_2)
  from rank_zero_prints_all_log [OF t] obtain L A where
    r: "\<forall>i < length [demo_worker, demo_worker].
          run_log (ws' ! i) =
            run_log ([demo_worker, demo_worker] ! i) @ [(''val_loss'', L), (''val_acc'', A)] \<and>
          stdout (ws' ! i) =
            (if i = 0 then stdout ([demo_worker, demo_worker] ! i) @ [TestSummary L (fmul (Fin 100) A)]
             else stdout ([demo_worker, demo_worker] ! i))"
    by blast
  have e: "run_log demo_worker = []" "stdout demo_worker = []"
    by (simp_all add: demo_worker_def)
  from r have "run_log (ws' ! 0) = [(''val_loss'', L), (''val_acc'', A)]"
    "stdout (ws' ! 0) = [TestSummary L (fmul (Fin 100) A)]"
    by (simp_all add: e)
  moreover from r have "run_log (ws' ! 1) = [(''val_loss'', L), (''val_acc'', A)]"
    "stdout (ws' ! 1) = []"
    by (simp_all add: e)
  ultimately show ?thesis using t by blast
qed

subsection \<open>C8\<close>

text \<open>
  Claim C8 says that every argument has a default, so that the program gets past its
  configuration with no argument given. \<^verbatim>\<open>--data-folder\<close> has none: with no argument
  \<^verbatim>\<open>args.data_folder\<close> is \<^verbatim>\<open>None\<close> and line 60 raises \<^verbatim>\<open>TypeError\<close>.
\<close>

theorem no_arguments_type_error_counterexample:
  "configure no_arguments True 1 = Inl TypeError"
  by (simp add: configure_def parse_args_def no_arguments_def join_data_folder_def
      with_default_def manual_seed_def seed_in_range_def)

text \<open>
  Claim C8, amended: every argument is optional, and every one but the data folder has a
  default (those below); without \<^verbatim>\<open>--data-folder\<close> the configuration is never passed: it
  raises \<^verbatim>\<open>TypeError\<close> at line 60, unless the seed is one that \<^verbatim>\<open>torch.manual_seed\<close> has
  refused at line 50; and with \<^verbatim>\<open>--data-folder\<close> as the only argument the configuration
  is passed (on a machine with CUDA).
\<close>

theorem defaults_but_data_folder:
  "parse_args no_arguments =
     \<lparr> data_folder = None, output_dir = ''./outputs'', batch_size = 64, test_batch_size = 1000,
       epochs = 10, lr = 1 / 100, momentum = 1 / 2, no_cuda = False, seed = 42,
       log_interval = 10, fp16_allreduce = False \<rparr> \<and>
   (arg_data_folder c = None \<longrightarrow>
      configure c cuda_available hvd_size =
        (if seed_in_range (seed (parse_args c)) then Inl TypeError else Inl SeedOverflow)) \<and>
   (\<exists>cfg. configure (no_arguments\<lparr>arg_data_folder := Some d\<rparr>) True hvd_size = Inr cfg)"
  by (simp add: parse_args_def no_arguments_def with_default_def configure_def
      join_data_folder_def check_batch_size_def to_cuda_def manual_seed_def seed_in_range_def
      optim_SGD_def make_optimizer_def Let_def)

theorem defaults_but_data_folder_witness:
  "arg_data_folder (no_arguments\<lparr>arg_epochs := Some 3\<rparr>) = None \<and>
   seed_in_range (seed (parse_args (no_arguments\<lparr>arg_epochs := Some 3\<rparr>))) \<and>
   configure (no_arguments\<lparr>arg_epochs := Some 3\<rparr>) False 2 = Inl TypeError"
  using defaults_but_data_folder [of "no_arguments\<lparr>arg_epochs := Some 3\<rparr>" False 2 "''/mnt''"]
  by (simp add: no_arguments_def parse_args_def with_default_def seed_in_range_def)

subsection \<open>C9\<close>

text \<open>
  Claim C9: the learning rate the SGD optimizer is built with is \<^verbatim>\<open>args.lr\<close> times the
  number of workers, not \<^verbatim>\<open>args.lr\<close> itself; with one worker the two are the same.
\<close>

theorem learning_rate_scaled_by_size:
  "sgd_lr (make_optimizer a hvd_size) = lr a * real hvd_size \<and>
   sgd_lr (make_optimizer a 1) = lr a \<and>
   (configure c cuda_available hvd_size = Inr cfg \<longrightarrow>
      sgd_lr (cfg_optimizer cfg) = lr (cfg_args cfg) * real hvd_size) \<and>
   (hvd_size \<noteq> 1 \<and> lr a \<noteq> 0 \<longrightarrow> sgd_lr (make_optimizer a hvd_size) \<noteq> lr a)"
  by (auto simp: make_optimizer_def configure_def optim_SGD_def Let_def
      split: sum.splits if_splits)

theorem learning_rate_scaled_by_size_witness:
  "configure demo_cmdline True 4 = Inr (demo_config\<lparr>cfg_optimizer := make_optimizer (parse_args demo_cmdline) 4\<rparr>) \<and>
   sgd_lr (cfg_optimizer (demo_config\<lparr>cfg_optimizer := make_optimizer (parse_args demo_cmdline) 4\<rparr>)) = 1 / 25 \<and>
   (4::nat) \<noteq> 1 \<and> lr (parse_args demo_cmdline) \<noteq> 0 \<and>
   sgd_lr (make_optimizer (parse_args demo_cmdline) 4) \<noteq> lr (parse_args demo_cmdline)"
proof -
  have c: "configure demo_cmdline True 4 =
      Inr (demo_config\<lparr>cfg_optimizer := make_optimizer (parse_args demo_cmdline) 4\<rparr>)"
    by (simp add: configure_def demo_config_def demo_cmdline_def parse_args_def no_arguments_def
        with_default_def join_data_folder_def check_batch_size_def to_cuda_def use_cuda_def
        os_path_join_def manual_seed_def seed_in_range_def optim_SGD_def make_optimizer_def
        Let_def)
  have l: "lr (parse_args demo_cmdline) = 1 / 100"
    by (simp add: demo_cmdline_def parse_args_def no_arguments_def with_default_def)
  from learning_rate_scaled_by_size [of "parse_args demo_cmdline" 4 demo_cmdline True
      "demo_config\<lparr>cfg_optimizer := make_optimizer (parse_args demo_cmdline) 4\<rparr>"] c l
  show ?thesis by (simp add: demo_config_def)
qed

subsection \<open>C10\<close>

text \<open>
  Claim C10: the class weights are moved to the CUDA device whatever the arguments and
  the machine. A configuration that is passed has them there, also under \<^verbatim>\<open>--no-cuda\<close>,
  where the model stays on the CPU; on a machine without CUDA the call is reached all the
  same, and no configuration is passed: the run fails there once the seed, the data
  folder, the batch sizes, the learning rate and the momentum are in order, so that no
  line before it has failed.
\<close>

theorem class_weights_always_to_cuda:
  "(configure c cuda_available hvd_size = Inr cfg \<longrightarrow>
      cuda_available \<and> class_weights_device cfg = CUDA \<and>
      (arg_no_cuda c \<longrightarrow> \<not> cuda cfg \<and> model_device cfg = CPU)) \<and>
   (\<not> cuda_available \<longrightarrow> (\<exists>e. configure c cuda_available hvd_size = Inl e)) \<and>
   (\<not> cuda_available \<and> seed_in_range (seed (parse_args c)) \<and> arg_data_folder c \<noteq> None \<and>
      0 < batch_size (parse_args c) \<and> 0 < test_batch_size (parse_args c) \<and>
      0 \<le> lr (parse_args c) * real hvd_size \<and> 0 \<le> momentum (parse_args c) \<longrightarrow>
      configure c cuda_available hvd_size = Inl CudaUnavailable)"
proof -
  have passed: "cuda_available \<and> class_weights_device cfg = CUDA \<and>
      (arg_no_cuda c \<longrightarrow> \<not> cuda cfg \<and> model_device cfg = CPU)"
    if "configure c cuda_available hvd_size = Inr cfg"
    using that
    by (auto simp: configure_def Let_def to_cuda_def use_cuda_def parse_args_def
        split: sum.splits if_splits)
  have fails: "\<exists>e. configure c cuda_available hvd_size = Inl e" if "\<not> cuda_available"
    using that by (auto simp: configure_def Let_def to_cuda_def split: sum.splits)
  have there: "configure c cuda_available hvd_size = Inl CudaUnavailable"
    if "\<not> cuda_available \<and> seed_in_range (seed (parse_args c)) \<and> arg_data_folder c \<noteq> None \<and>
      0 < batch_size (parse_args c) \<and> 0 < test_batch_size (parse_args c) \<and>
      0 \<le> lr (parse_args c) * real hvd_size \<and> 0 \<le> momentum (parse_args c)"
  proof -
    have "data_folder (parse_args c) = arg_data_folder c"
      by (simp add: parse_args_def)
    with that show ?thesis
      by (auto simp: configure_def Let_def to_cuda_def manual_seed_def join_data_folder_def
          check_batch_size_def optim_SGD_def make_optimizer_def split: option.splits)
  qed
  from passed fails there show ?thesis by blast
qed

theorem class_weights_always_to_cuda_witness:
  "\<exists>cfg. configure (demo_cmdline\<lparr>arg_no_cuda := True\<rparr>) True 1 = Inr cfg \<and>
     arg_no_cuda (demo_cmdline\<lparr>arg_no_cuda := True\<rparr>) \<and>
     class_weights_device cfg = CUDA \<and> \<not> cuda cfg \<and> model_device cfg = CPU \<and>
     seed_in_range (seed (parse_args (demo_cmdline\<lparr>arg_no_cuda := True\<rparr>))) \<and>
     arg_data_folder (demo_cmdline\<lparr>arg_no_cuda := True\<rparr>) \<noteq> None \<and>
     0 < batch_size (parse_args (demo_cmdline\<lparr>arg_no_cuda := True\<rparr>)) \<and>
     0 < test_batch_size (parse_args (demo_cmdline\<lparr>arg_no_cuda := True\<rparr>)) \<and>
     0 \<le> lr (parse_args (demo_cmdline\<lparr>arg_no_cuda := True\<rparr>)) * real (1::nat) \<and>
     0 \<le> momentum (parse_args (demo_cmdline\<lparr>arg_no_cuda := True\<rparr>)) \<and>
     configure (demo_cmdline\<lparr>arg_no_cuda := True\<rparr>) False 1 = Inl CudaUnavailable"
proof -
  let ?c = "demo_cmdline\<lparr>arg_no_cuda := True\<rparr>"
  obtain cfg where c: "configure ?c True 1 = Inr cfg"
    by (simp add: configure_def demo_cmdline_def parse_args_def no_arguments_def
        with_default_def join_data_folder_def check_batch_size_def to_cuda_def manual_seed_def
        seed_in_range_def optim_SGD_def make_optimizer_def Let_def)
  have h: "arg_no_cuda ?c" "seed_in_range (seed (parse_args ?c))" "arg_data_folder ?c \<noteq> None"
    "0 < batch_size (parse_args ?c)" "0 < test_batch_size (parse_args ?c)"
    "0 \<le> lr (parse_args ?c) * real (1::nat)" "0 \<le> momentum (parse_args ?c)"
    by (simp_all add: demo_cmdline_def parse_args_def no_arguments_def with_default_def
        seed_in_range_def)
  from class_weights_always_to_cuda [of ?c True 1 cfg] c h(1)
  have a: "class_weights_device cfg = CUDA" "\<not> cuda cfg" "model_device cfg = CPU"
    by blast+
  from class_weights_always_to_cuda [of ?c False 1 cfg] h
  have b: "configure ?c False 1 = Inl CudaUnavailable"
    by blast
  from c h a b show ?thesis by blast
qed

end
